theory Spec2Isabelle
  imports Main "HOL-Library.Word" "HOL-Library.AList"
begin

unbundle bit_operations_syntax

section \<open>inestool: a shallow embedding of \<^verbatim>\<open>inestool.py\<close>\<close>

text \<open>
  Python integers are unbounded and are modelled as \<open>int\<close>; a \<^verbatim>\<open>bytes\<close> value is a list
  of 8-bit words, and indexing it gives an \<open>int\<close> in the range 0 to 255, as in Python.
  A \<^verbatim>\<open>bool\<close> used in arithmetic is 0 or 1 (\<open>of_bool\<close>). Every \<^verbatim>\<open>raise\<close> and every
  failing \<^verbatim>\<open>assert\<close> of the source is a value \<open>Inl e\<close> of the result type; the text of an
  exception is kept without the number that the source formats into it.
\<close>

subsection \<open>Errors, bytes and constants\<close>

datatype error =
    AssertionError
  | SkipROM string
  | Exception string
  | KeyError string
  | ValueError
  | OSError string
  | StopIteration

type_synonym byte = "8 word"
type_synonym bytes = "byte list"

abbreviation (input) READ_SIZE :: nat where
  "READ_SIZE \<equiv> 65536"

abbreviation (input) MIN_HEADER_READ_SIZE :: nat where
  "MIN_HEADER_READ_SIZE \<equiv> 16"

text \<open>The byte literals \<^verbatim>\<open>b"NES\x1a"\<close> and \<^verbatim>\<open>b"UNIF"\<close>.\<close>

definition NES_MAGIC :: bytes where
  "NES_MAGIC = [0x4E, 0x45, 0x53, 0x1A]"

definition UNIF_MAGIC :: bytes where
  "UNIF_MAGIC = [0x55, 0x4E, 0x49, 0x46]"

text \<open>\<^verbatim>\<open>bytes.startswith\<close>.\<close>

definition startswith :: "'a list \<Rightarrow> 'a list \<Rightarrow> bool" where
  "startswith s p = (take (length p) s = p)"

text \<open>\<^verbatim>\<open>header_bytes[i]\<close>, read only where the index is known to be in range.\<close>

definition byte_at :: "bytes \<Rightarrow> nat \<Rightarrow> int" where
  "byte_at bs i = uint (bs ! i)"

subsection \<open>The header record: class \<^verbatim>\<open>ROMInfo\<close>\<close>

abbreviation (input) MIRROR_HORIZONTAL :: int where "MIRROR_HORIZONTAL \<equiv> 0"
abbreviation (input) MIRROR_VERTICAL :: int where "MIRROR_VERTICAL \<equiv> 1"
abbreviation (input) MIRROR_FOUR_SCREEN :: int where "MIRROR_FOUR_SCREEN \<equiv> 8"
abbreviation (input) MIRROR_FOUR_SCREEN_ODD :: int where "MIRROR_FOUR_SCREEN_ODD \<equiv> 9"
abbreviation (input) MIRROR_CONTROLLED :: int where "MIRROR_CONTROLLED \<equiv> 16"

abbreviation (input) TV_NTSC :: int where "TV_NTSC \<equiv> 0"
abbreviation (input) TV_PAL :: int where "TV_PAL \<equiv> 1"
abbreviation (input) TV_BOTH :: int where "TV_BOTH \<equiv> 2"

record ROMInfo =
  prg_rom_size :: int
  prg_ram_size :: int
  chr_rom_size :: int
  mapper :: int
  mirroring :: int
  tv_system :: int
  has_nvram :: bool
  has_trainer :: bool
  is_playchoice_10 :: bool
  is_vs_unisystem :: bool

text \<open>
  \<^verbatim>\<open>ROMInfo.__init__\<close> stores its ten arguments and does nothing else: it has no
  \<^verbatim>\<open>raise\<close> and no \<^verbatim>\<open>assert\<close>, so the model is a total function.
\<close>

definition ROMInfo_init ::
  "int \<Rightarrow> int \<Rightarrow> int \<Rightarrow> int \<Rightarrow> int \<Rightarrow> int \<Rightarrow> bool \<Rightarrow> bool \<Rightarrow> bool \<Rightarrow> bool \<Rightarrow> ROMInfo" where
  "ROMInfo_init prg_rom_size' prg_ram_size' chr_rom_size' mapper' mirroring' tv_system'
       has_nvram' has_trainer' is_playchoice_10' is_vs_unisystem' =
     \<lparr> prg_rom_size = prg_rom_size', prg_ram_size = prg_ram_size',
       chr_rom_size = chr_rom_size', mapper = mapper', mirroring = mirroring',
       tv_system = tv_system', has_nvram = has_nvram', has_trainer = has_trainer',
       is_playchoice_10 = is_playchoice_10', is_vs_unisystem = is_vs_unisystem' \<rparr>"

text \<open>\<^verbatim>\<open>ROMInfo.FIELDS\<close>, in the order of \<^verbatim>\<open>FIELD_LABELS\<close>.\<close>

definition FIELDS :: "string list" where
  "FIELDS = [''prg_rom_size'', ''prg_ram_size'', ''chr_rom_size'', ''mapper'', ''mirroring'',
             ''tv_system'', ''has_nvram'', ''has_trainer'', ''is_playchoice_10'',
             ''is_vs_unisystem'']"

text \<open>
  \<^verbatim>\<open>getattr(rom_info, attr)\<close> for the names of \<open>FIELDS\<close>. A Python \<^verbatim>\<open>bool\<close> is an
  \<^verbatim>\<open>int\<close> (\<^verbatim>\<open>True == 1\<close>), so every attribute value is read as an \<open>int\<close>.
\<close>

definition getattr :: "ROMInfo \<Rightarrow> string \<Rightarrow> int" where
  "getattr r attr =
     (if attr = ''prg_rom_size'' then prg_rom_size r
      else if attr = ''prg_ram_size'' then prg_ram_size r
      else if attr = ''chr_rom_size'' then chr_rom_size r
      else if attr = ''mapper'' then mapper r
      else if attr = ''mirroring'' then mirroring r
      else if attr = ''tv_system'' then tv_system r
      else if attr = ''has_nvram'' then of_bool (has_nvram r)
      else if attr = ''has_trainer'' then of_bool (has_trainer r)
      else if attr = ''is_playchoice_10'' then of_bool (is_playchoice_10 r)
      else of_bool (is_vs_unisystem r))"

definition is_ignored_mirroring_diff :: "int \<Rightarrow> int \<Rightarrow> bool" where
  "is_ignored_mirroring_diff mirror_val_a mirror_val_b =
     (((mirror_val_a OR mirror_val_b) AND (MIRROR_CONTROLLED OR MIRROR_FOUR_SCREEN))
        = MIRROR_CONTROLLED)"

text \<open>
  \<^verbatim>\<open>ROMInfo.diff\<close>: the dictionary of differences, as an association list in insertion
  order (the order of \<open>FIELDS\<close>); each key occurs at most once.
\<close>

definition differs :: "ROMInfo \<Rightarrow> ROMInfo \<Rightarrow> string \<Rightarrow> bool" where
  "differs self other attr =
     (let self_val = getattr self attr; other_val = getattr other attr
      in self_val \<noteq> other_val \<and>
         \<not> ((attr = ''mirroring'' \<and> is_ignored_mirroring_diff self_val other_val)
            \<or> (attr = ''tv_system'' \<and> (TV_BOTH = self_val \<or> TV_BOTH = other_val))))"

definition diff :: "ROMInfo \<Rightarrow> ROMInfo \<Rightarrow> (string \<times> int \<times> int) list" where
  "diff self other =
     map (\<lambda>attr. (attr, getattr self attr, getattr other attr))
         (filter (differs self other) FIELDS)"

subsection \<open>The header codec\<close>

text \<open>
  \<^verbatim>\<open>parse_header\<close>: \<open>Inl\<close> is the failed assertion or the skip signal, \<open>Inr None\<close> is
  "no header", \<open>Inr (Some r)\<close> a parsed record. In Python \<^verbatim>\<open>&\<close> binds tighter than
  \<^verbatim>\<open>==\<close>, so the second-generation test is \<^verbatim>\<open>(header_bytes[7] & 0xC) == 8\<close>.
\<close>

definition parse_header :: "bytes \<Rightarrow> error + ROMInfo option" where
  "parse_header header_bytes =
     (if \<not> MIN_HEADER_READ_SIZE \<le> length header_bytes then Inl AssertionError
      else if startswith header_bytes UNIF_MAGIC then
        Inl (SkipROM ''UNIF currently unsupported'')
      else if \<not> startswith header_bytes NES_MAGIC then Inr None
      else if byte_at header_bytes 7 AND 0xC = 8 then
        Inl (SkipROM ''NES 2.0 currently unsupported'')
      else if byte_at header_bytes 6 AND 4 \<noteq> 0 then
        Inl (SkipROM ''ROMs with trainers currently unsupported'')
      else Inr (Some (ROMInfo_init
        (byte_at header_bytes 4 * 16384)
        (byte_at header_bytes 8 * 8192)
        (byte_at header_bytes 5 * 8192)
        ((byte_at header_bytes 7 AND 0xF0) + drop_bit 4 (byte_at header_bytes 6 AND 0xF0))
        (byte_at header_bytes 6 AND 9)
        (byte_at header_bytes 9 AND 1)
        (byte_at header_bytes 6 AND 2 \<noteq> 0)
        (byte_at header_bytes 6 AND 4 \<noteq> 0)
        (byte_at header_bytes 7 AND 2 \<noteq> 0)
        (byte_at header_bytes 7 AND 1 \<noteq> 0))))"

text \<open>
  \<^verbatim>\<open>bytearray.extend\<close> with a tuple of integers: each must be in \<^verbatim>\<open>range(256)\<close>,
  otherwise Python raises \<^verbatim>\<open>ValueError\<close>.
\<close>

fun bytearray_extend :: "bytes \<Rightarrow> int list \<Rightarrow> error + bytes" where
  "bytearray_extend header [] = Inr header"
| "bytearray_extend header (i # rest) =
     (if 0 \<le> i \<and> i < 256 then bytearray_extend (header @ [word_of_int i]) rest
      else Inl ValueError)"

text \<open>
  \<^verbatim>\<open>int(math.ceil(size / 8192.0))\<close>. It is only reached with \<open>0 \<le> size \<le> 255 * 8192\<close>,
  where the floating-point quotient by a power of two is exact, so the result is the
  integer ceiling of the quotient.
\<close>

definition ceil_div_8192 :: "int \<Rightarrow> int" where
  "ceil_div_8192 n = (n + 8191) div 8192"

definition make_ines_header :: "ROMInfo \<Rightarrow> error + bytes" where
  "make_ines_header rom_info =
     (if prg_rom_size rom_info AND 16383 \<noteq> 0
         \<or> prg_rom_size rom_info > 0xFF * 16384
         \<or> prg_rom_size rom_info < 0 then
        Inl (Exception ''cannot represent PRG ROM size in iNES header'')
      else let prg_rom = prg_rom_size rom_info div 16384 in
      if chr_rom_size rom_info AND 8191 \<noteq> 0
         \<or> chr_rom_size rom_info > 0xFF * 8192
         \<or> chr_rom_size rom_info < 0 then
        Inl (Exception ''cannot represent CHR ROM size in iNES header'')
      else let chr_rom = chr_rom_size rom_info div 8192 in
      if mapper rom_info < 0 \<or> mapper rom_info > 255 then
        Inl (Exception ''cannot represent mapper in iNES header'')
      else let
        flags_6 = push_bit 4 (mapper rom_info AND 0xF)
                  OR (mirroring rom_info AND 0xF)
                  OR push_bit 2 (of_bool (has_trainer rom_info))
                  OR push_bit 1 (of_bool (has_nvram rom_info));
        flags_7 = (mapper rom_info AND 0xF0)
                  OR push_bit 1 (of_bool (is_playchoice_10 rom_info))
                  OR of_bool (is_vs_unisystem rom_info)
      in
      if prg_ram_size rom_info > 0xFF * 8192 \<or> prg_ram_size rom_info < 0 then
        Inl (Exception ''cannot represent PRG RAM size in iNES header'')
      else let
        prg_ram = ceil_div_8192 (prg_ram_size rom_info);
        flags_9 = tv_system rom_info AND 1
      in bytearray_extend NES_MAGIC [prg_rom, chr_rom, flags_6, flags_7, prg_ram, flags_9])"

subsection \<open>The checksum: \<^verbatim>\<open>binascii.crc32\<close>\<close>

text \<open>
  \<^verbatim>\<open>binascii.crc32(data, crc)\<close> is the CRC-32 of ISO 3309 (reflected polynomial
  \<open>0xEDB88320\<close>, initial value and final complement \<open>0xFFFFFFFF\<close>), continued from the
  running value \<open>crc\<close>; its result is an unsigned 32-bit number, here a \<open>32 word\<close>.
\<close>

definition crc32_shift :: "32 word \<Rightarrow> 32 word" where
  "crc32_shift c = (if bit c 0 then drop_bit 1 c XOR 0xEDB88320 else drop_bit 1 c)"

definition crc32_byte :: "32 word \<Rightarrow> byte \<Rightarrow> 32 word" where
  "crc32_byte c b = (crc32_shift ^^ 8) (c XOR ucast b)"

definition binascii_crc32 :: "bytes \<Rightarrow> 32 word \<Rightarrow> 32 word" where
  "binascii_crc32 data crc = NOT (foldl crc32_byte (NOT crc) data)"

text \<open>The format \<^verbatim>\<open>"%08X"\<close>: eight upper-case hexadecimal digits.\<close>

definition hex_digit :: "nat \<Rightarrow> char" where
  "hex_digit d = ''0123456789ABCDEF'' ! d"

definition format_08X :: "32 word \<Rightarrow> string" where
  "format_08X w = map (\<lambda>i. hex_digit (unat (drop_bit (4 * i) w AND 0xF))) [7, 6, 5, 4, 3, 2, 1, 0]"

subsection \<open>Enumeration: \<^verbatim>\<open>FileInfo\<close> and \<^verbatim>\<open>IOHandler._make_file_info\<close>\<close>

record FileInfo =
  name :: string
  crc32 :: string
  rom_info :: "ROMInfo option"
  handler_data :: "string option"

definition FileInfo_init :: "string \<Rightarrow> string \<Rightarrow> ROMInfo option \<Rightarrow> string option \<Rightarrow> FileInfo" where
  "FileInfo_init name' crc32' rom_info' handler_data' =
     \<lparr> name = name', crc32 = crc32', rom_info = rom_info', handler_data = handler_data' \<rparr>"

text \<open>
  A file object open for reading is the list of the bytes not yet read:
  \<^verbatim>\<open>file_obj.read(n)\<close> returns \<open>take n\<close> of it and leaves \<open>drop n\<close>. The loop
  \<^verbatim>\<open>while True: data = file_obj.read(READ_SIZE); if not data: break; ...\<close> is
  \<open>crc32_rest\<close>; it ends because every non-empty read shortens what is left.
\<close>

function crc32_rest :: "bytes \<Rightarrow> 32 word \<Rightarrow> 32 word" where
  "crc32_rest file_obj crc =
     (let data = take READ_SIZE file_obj
      in if data = [] then crc
         else crc32_rest (drop READ_SIZE file_obj) (binascii_crc32 data crc))"
  by pat_completeness auto
termination
  by (relation "measure (\<lambda>(file_obj, crc). length file_obj)") auto

declare crc32_rest.simps [simp del]

text \<open>
  \<^verbatim>\<open>_make_file_info\<close>. Only \<^verbatim>\<open>SkipROM\<close> is caught, and it is raised again after a log
  line (not modelled); any other exception of \<^verbatim>\<open>parse_header\<close> passes through as well.
  \<^verbatim>\<open>if rom_info:\<close> tests for \<^verbatim>\<open>None\<close>, since a \<^verbatim>\<open>ROMInfo\<close> object is always true.
\<close>

definition make_file_info :: "string \<Rightarrow> bytes \<Rightarrow> string option \<Rightarrow> error + FileInfo" where
  "make_file_info name' file_obj handler_data' =
     (let header_bytes = take MIN_HEADER_READ_SIZE file_obj;
          file_obj' = drop MIN_HEADER_READ_SIZE file_obj
      in (case parse_header header_bytes of
            Inl ex \<Rightarrow> Inl ex
          | Inr rom_info' \<Rightarrow>
              let crc = (if rom_info' \<noteq> None then 0 else binascii_crc32 header_bytes 0)
              in Inr (FileInfo_init name' (format_08X (crc32_rest file_obj' crc))
                        rom_info' handler_data')))"

text \<open>
  The file system: a path holds a regular file, read as raw bytes; or a zip archive, read
  as the list of its members (name and uncompressed bytes, in directory order); or a
  directory of regular files. Failures of the operating system (full disk, permissions)
  are not modelled.
\<close>

datatype node =
    File bytes
  | ZipFile "(string \<times> bytes) list"
  | Dir "(string \<times> bytes) list"

type_synonym fs = "string \<rightharpoonup> node"

text \<open>
  \<^verbatim>\<open>FileIOHandler.__iter__\<close>: the items it yields, or the exception that leaves it.
  \<^verbatim>\<open>SkipROM\<close> is the only exception it catches.
\<close>

definition FileIOHandler_iter :: "fs \<Rightarrow> string \<Rightarrow> error + FileInfo list" where
  "FileIOHandler_iter files path =
     (case files path of
        Some (File the_file) \<Rightarrow>
          (case make_file_info path the_file None of
             Inl (SkipROM msg) \<Rightarrow> Inr []
           | Inl ex \<Rightarrow> Inl ex
           | Inr file_info \<Rightarrow> Inr [file_info])
      | _ \<Rightarrow> Inl (OSError ''cannot open file''))"

subsection \<open>Updates: \<^verbatim>\<open>UpdateRequest\<close> and \<^verbatim>\<open>WritableIOHandler._update_file\<close>\<close>

abbreviation (input) REQ_HEADER_INSERT :: int where "REQ_HEADER_INSERT \<equiv> 1"
abbreviation (input) REQ_HEADER_REPLACE :: int where "REQ_HEADER_REPLACE \<equiv> 2"

record UpdateRequest =
  file_info :: FileInfo
  req_type :: int
  req_rom_info :: ROMInfo

text \<open>
  \<^verbatim>\<open>_update_file(path, requests)\<close>, as the effect on the bytes of the file at \<open>path\<close>
  (which exists: it has just been enumerated or extracted). The result is the exception
  that stopped the loop, if any, and the bytes of the file at that moment.
  \<^item> Replace: \<^verbatim>\<open>open(path, "r+b").write(header_bytes)\<close> overwrites the first
    \<open>length header_bytes\<close> bytes and keeps the rest.
  \<^item> Insert: a temporary file in the same directory receives \<open>header_bytes\<close> and then a
    copy of the file, and is renamed over \<open>path\<close>; the temporary file has a fresh name and
    is gone when the iteration ends, renamed or unlinked.
  \<^verbatim>\<open>make_ines_header\<close> is called before either, so its exception leaves the file as the
  previous requests left it.
\<close>

fun update_file :: "bytes \<Rightarrow> UpdateRequest list \<Rightarrow> error option \<times> bytes" where
  "update_file the_file [] = (None, the_file)"
| "update_file the_file (request # requests) =
     (case make_ines_header (req_rom_info request) of
        Inl ex \<Rightarrow> (Some ex, the_file)
      | Inr header_bytes \<Rightarrow>
          if req_type request = REQ_HEADER_REPLACE then
            update_file (header_bytes @ drop (length header_bytes) the_file) requests
          else if req_type request = REQ_HEADER_INSERT then
            update_file (header_bytes @ the_file) requests
          else (Some (Exception ''unknown request type''), the_file))"

text \<open>\<^verbatim>\<open>FileIOHandler.update\<close>: every request must name this path.\<close>

definition FileIOHandler_update :: "fs \<Rightarrow> string \<Rightarrow> UpdateRequest list \<Rightarrow> error option \<times> fs" where
  "FileIOHandler_update files path requests =
     (if list_ex (\<lambda>request. name (file_info request) \<noteq> path) requests then
        (Some (Exception ''can only accept requests for this path''), files)
      else if requests = [] then (None, files)
      else case files path of
        Some (File the_file) \<Rightarrow>
          (let (ex, the_file') = update_file the_file requests
           in (ex, files(path \<mapsto> File the_file')))
      | _ \<Rightarrow> (Some (OSError ''cannot open file''), files))"

subsection \<open>Zip archives: \<^verbatim>\<open>ZipIOHandler.update\<close>\<close>

record ZipIOHandler =
  zip_path :: string
  updates :: nat

text \<open>
  \<^verbatim>\<open>requests_by_file\<close>, a \<^verbatim>\<open>defaultdict(list)\<close> keyed by
  \<^verbatim>\<open>request.file_info.handler_data\<close>: an association list with distinct keys, in insertion
  order. \<open>pop_requests\<close> is \<^verbatim>\<open>requests_by_file.pop(name, ())\<close>.
\<close>

type_synonym requests_by_file = "(string option \<times> UpdateRequest list) list"

definition append_request :: "requests_by_file \<Rightarrow> UpdateRequest \<Rightarrow> requests_by_file" where
  "append_request by_file request =
     (let key = handler_data (file_info request);
          so_far = (case map_of by_file key of None \<Rightarrow> [] | Some rs \<Rightarrow> rs)
      in AList.update key (so_far @ [request]) by_file)"

definition group_requests :: "UpdateRequest list \<Rightarrow> requests_by_file" where
  "group_requests requests = foldl append_request [] requests"

definition pop_requests :: "requests_by_file \<Rightarrow> string \<Rightarrow> UpdateRequest list \<times> requests_by_file" where
  "pop_requests by_file name' =
     ((case map_of by_file (Some name') of None \<Rightarrow> [] | Some rs \<Rightarrow> rs),
      AList.delete (Some name') by_file)"

text \<open>
  An archive keeps its directory in order and may repeat a name: \<^verbatim>\<open>namelist()\<close> is the
  list of all names, and a read by name (\<^verbatim>\<open>extract\<close>) finds the last entry of that name.
\<close>

definition namelist :: "(string \<times> bytes) list \<Rightarrow> string list" where
  "namelist members = map fst members"

definition zip_read :: "(string \<times> bytes) list \<Rightarrow> string \<Rightarrow> bytes option" where
  "zip_read members name' = map_of (rev members) name'"

text \<open>Writing a file into the scratch directory, removing one, and adding a member.\<close>

definition dir_write :: "fs \<Rightarrow> string \<Rightarrow> string \<Rightarrow> bytes \<Rightarrow> fs" where
  "dir_write files d member_path content =
     (case files d of
        Some (Dir entries) \<Rightarrow> files(d \<mapsto> Dir (AList.update member_path content entries))
      | _ \<Rightarrow> files)"

definition dir_unlink :: "fs \<Rightarrow> string \<Rightarrow> string \<Rightarrow> fs" where
  "dir_unlink files d member_path =
     (case files d of
        Some (Dir entries) \<Rightarrow> files(d \<mapsto> Dir (AList.delete member_path entries))
      | _ \<Rightarrow> files)"

definition zip_write :: "fs \<Rightarrow> string \<Rightarrow> string \<Rightarrow> bytes \<Rightarrow> fs" where
  "zip_write files archive name' content =
     (case files archive of
        Some (ZipFile members) \<Rightarrow> files(archive \<mapsto> ZipFile (members @ [(name', content)]))
      | _ \<Rightarrow> files)"

definition os_rename :: "fs \<Rightarrow> string \<Rightarrow> string \<Rightarrow> fs" where
  "os_rename files src dst = (files(dst := files src))(src := None)"

text \<open>
  The loop \<^verbatim>\<open>for name in orig_zip_file.namelist()\<close> of \<^verbatim>\<open>ZipIOHandler.update\<close>:
  extract the member into the scratch directory, take its requests, update the extracted
  copy, add it to the new archive (the temporary file) and unlink the copy. An exception
  of \<^verbatim>\<open>_update_file\<close> leaves the loop at once.
\<close>

fun rebuild ::
  "string \<Rightarrow> string \<Rightarrow> (string \<times> bytes) list \<Rightarrow> string list \<Rightarrow> requests_by_file \<Rightarrow> fs
     \<Rightarrow> error option \<times> requests_by_file \<times> fs" where
  "rebuild temp_name temp_dir orig [] by_file files = (None, by_file, files)"
| "rebuild temp_name temp_dir orig (name' # names) by_file files =
     (case zip_read orig name' of
        None \<Rightarrow> (Some (KeyError name'), by_file, files)
      | Some content \<Rightarrow>
          let files1 = dir_write files temp_dir name' content;
              (requests, by_file') = pop_requests by_file name';
              (ex, content') = update_file content requests;
              files2 = dir_write files1 temp_dir name' content'
          in (case ex of
                Some e \<Rightarrow> (Some e, by_file', files2)
              | None \<Rightarrow>
                  let files3 = zip_write files2 temp_name name' content';
                      files4 = dir_unlink files3 temp_dir name'
                  in rebuild temp_name temp_dir orig names by_file' files4))"

text \<open>
  \<^verbatim>\<open>ZipIOHandler.update\<close>. \<open>temp_name\<close> and \<open>temp_dir\<close> are the names that
  \<^verbatim>\<open>tempfile.NamedTemporaryFile\<close> and \<^verbatim>\<open>tempfile.mkdtemp\<close> return. The body of the
  \<^verbatim>\<open>try\<close> is \<open>update_body\<close>; the \<^verbatim>\<open>finally\<close> clause, which runs on every exit, is
  \<open>update_finally\<close>.
\<close>

definition update_body ::
  "string \<Rightarrow> string \<Rightarrow> ZipIOHandler \<Rightarrow> fs \<Rightarrow> UpdateRequest list
     \<Rightarrow> error option \<times> ZipIOHandler \<times> fs" where
  "update_body temp_name temp_dir self files requests =
     (let by_file = group_requests requests;
          files1 = files(temp_name \<mapsto> File []);
          files2 = files1(temp_dir \<mapsto> Dir [])
      in case files2 (zip_path self) of
           Some (ZipFile orig) \<Rightarrow>
             let files3 = files2(temp_name \<mapsto> ZipFile []);
                 (ex, by_file', files4) =
                    rebuild temp_name temp_dir orig (namelist orig) by_file files3
             in (case ex of
                   Some e \<Rightarrow> (Some e, self, files4)
                 | None \<Rightarrow>
                     if by_file' \<noteq> [] then
                       (Some (Exception ''requests for unknown files''), self, files4)
                     else (None, self\<lparr>updates := updates self + 1\<rparr>,
                           os_rename files4 temp_name (zip_path self)))
         | _ \<Rightarrow> (Some (OSError ''cannot open archive''), self, files2))"

definition update_finally :: "string \<Rightarrow> string \<Rightarrow> fs \<Rightarrow> fs" where
  "update_finally temp_name temp_dir files = (files(temp_name := None))(temp_dir := None)"

definition ZipIOHandler_update ::
  "string \<Rightarrow> string \<Rightarrow> ZipIOHandler \<Rightarrow> fs \<Rightarrow> UpdateRequest list
     \<Rightarrow> error option \<times> ZipIOHandler \<times> fs" where
  "ZipIOHandler_update temp_name temp_dir self files requests =
     (let (ex, self', files') = update_body temp_name temp_dir self files requests
      in (ex, self', update_finally temp_name temp_dir files'))"

subsection \<open>The reference database: \<^verbatim>\<open>parse_db_entry\<close>\<close>

text \<open>
  An \<^verbatim>\<open>xml.etree.ElementTree.Element\<close>: its tag, its attribute dictionary and its child
  elements. Strings are ASCII, as in the database file; \<open>upper\<close> and \<open>lower\<close> are
  \<^verbatim>\<open>str.upper\<close> and \<^verbatim>\<open>str.lower\<close> on ASCII.
\<close>

datatype element = Element (tag: string) (attrib: "(string \<times> string) list") (children: "element list")

definition upper :: "string \<Rightarrow> string" where
  "upper s = map (\<lambda>c. let n = (of_char c :: nat)
                        in if 97 \<le> n \<and> n \<le> 122 then char_of (n - 32) else c) s"

definition lower :: "string \<Rightarrow> string" where
  "lower s = map (\<lambda>c. let n = (of_char c :: nat)
                        in if 65 \<le> n \<and> n \<le> 90 then char_of (n + 32) else c) s"

text \<open>\<^verbatim>\<open>elem.findall(path)\<close> for a path that is a plain tag: the children with that tag.\<close>

definition findall :: "element \<Rightarrow> string \<Rightarrow> element list" where
  "findall elem path = filter (\<lambda>child. tag child = path) (children elem)"

definition etree_find_one :: "element \<Rightarrow> string \<Rightarrow> bool \<Rightarrow> error + element option" where
  "etree_find_one elem path optional =
     (let found = findall elem path
      in if length found > 1 then Inl (Exception ''too many children'')
         else if \<not> optional \<and> length found = 0 then Inl (Exception ''no children'')
         else Inr (case found of [] \<Rightarrow> None | child # _ \<Rightarrow> Some child))"

text \<open>All elements below \<open>elem\<close>, for the path \<^verbatim>\<open>.//*\<close>.\<close>

fun descendants :: "element \<Rightarrow> element list" where
  "descendants (Element t a cs) = concat (map (\<lambda>c. c # descendants c) cs)"

text \<open>
  The truth value of an \<^verbatim>\<open>Element\<close>, as in \<^verbatim>\<open>if pad and ...\<close>: the class defines
  \<^verbatim>\<open>__len__\<close> as the number of children, and the truth value follows it, so an element
  without children is false.
\<close>

definition element_truth :: "element \<Rightarrow> bool" where
  "element_truth elem = (children elem \<noteq> [])"

definition FOUR_SCREEN_BOARDS :: "string set" where
  "FOUR_SCREEN_BOARDS = {''NES-DRROM'', ''NES-TR1ROM'', ''TENGEN-800004'', ''NES-TVROM'',
     ''IREM-74*161/161/21/138'', ''HVC-DRROM'', ''HVC-TVROM''}"

definition PAL_SYSTEMS :: "string set" where
  "PAL_SYSTEMS = {''NES-PAL'', ''NES-PAL-A'', ''NES-PAL-B'', ''Dendy''}"

text \<open>
  The builtin \<^verbatim>\<open>int\<close> on a string is a parameter \<open>int_of\<close> of the functions below
  (\<open>None\<close> where Python raises \<^verbatim>\<open>ValueError\<close>), so that what is proved holds whatever
  strings it accepts. \<^verbatim>\<open>str.isdigit\<close> is taken on ASCII.
\<close>

definition isdigit :: "string \<Rightarrow> bool" where
  "isdigit s = (s \<noteq> [] \<and> list_all (\<lambda>c. c \<in> set ''0123456789'') s)"

definition endswith :: "string \<Rightarrow> string \<Rightarrow> bool" where
  "endswith s suffix = (drop (length s - length suffix) s = suffix \<and> length suffix \<le> length s)"

definition parse_size :: "(string \<Rightarrow> int option) \<Rightarrow> string \<Rightarrow> error + int" where
  "parse_size int_of str_value =
     (if \<not> endswith str_value ''k'' \<or> \<not> isdigit (butlast str_value) then
        Inl (Exception ''cannot parse size'')
      else case int_of (butlast str_value) of
             None \<Rightarrow> Inl ValueError
           | Some n \<Rightarrow> Inr (n * 2 ^ 10))"

text \<open>\<^verbatim>\<open>sum(parse_size(x.attrib["size"]) for x in elems)\<close>.\<close>

fun sum_sizes :: "(string \<Rightarrow> int option) \<Rightarrow> element list \<Rightarrow> error + int" where
  "sum_sizes int_of [] = Inr 0"
| "sum_sizes int_of (x # xs) =
     (case map_of (attrib x) ''size'' of
        None \<Rightarrow> Inl (KeyError ''size'')
      | Some v \<Rightarrow>
          (case parse_size int_of v of
             Inl ex \<Rightarrow> Inl ex
           | Inr n \<Rightarrow>
               (case sum_sizes int_of xs of
                  Inl ex \<Rightarrow> Inl ex
                | Inr rest_sum \<Rightarrow> Inr (n + rest_sum))))"

text \<open>
  \<^verbatim>\<open>int(elem.attrib.get(key, default))\<close> where the default stands for zero
  (\<^verbatim>\<open>0\<close> for the mapper, \<^verbatim>\<open>"0"\<close> for the pads).
\<close>

definition int_attr :: "(string \<Rightarrow> int option) \<Rightarrow> element \<Rightarrow> string \<Rightarrow> error + int" where
  "int_attr int_of elem key =
     (case map_of (attrib elem) key of
        None \<Rightarrow> Inr 0
      | Some v \<Rightarrow> (case int_of v of None \<Rightarrow> Inl ValueError | Some n \<Rightarrow> Inr n))"

text \<open>
  Lines 580 to 591 of \<^verbatim>\<open>parse_db_entry\<close>: the optional \<^verbatim>\<open>pad\<close> element with
  \<^verbatim>\<open>pad_h\<close> and \<^verbatim>\<open>pad_v\<close>; \<open>None\<close> is \<^verbatim>\<open>pad is None\<close>.
\<close>

definition parse_pad :: "(string \<Rightarrow> int option) \<Rightarrow> element \<Rightarrow> error + (element \<times> int \<times> int) option" where
  "parse_pad int_of board =
     (case etree_find_one board ''pad'' True of
        Inl ex \<Rightarrow> Inl ex
      | Inr None \<Rightarrow> Inr None
      | Inr (Some pad) \<Rightarrow>
          (case int_attr int_of pad ''h'' of
             Inl ex \<Rightarrow> Inl ex
           | Inr pad_h \<Rightarrow>
               (case int_attr int_of pad ''v'' of
                  Inl ex \<Rightarrow> Inl ex
                | Inr pad_v \<Rightarrow>
                    if pad_h \<noteq> 0 \<and> pad_v \<noteq> 0 then
                      Inl (Exception ''both H and V solder pads set'')
                    else if \<not> (pad_h \<noteq> 0 \<or> pad_v \<noteq> 0) then
                      Inl (Exception ''neither H nor V set on pad element'')
                    else Inr (Some (pad, pad_h, pad_v)))))"

text \<open>Lines 592 to 609 of \<^verbatim>\<open>parse_db_entry\<close>: the mirroring of the board.\<close>

definition board_mirroring :: "element \<Rightarrow> (element \<times> int \<times> int) option \<Rightarrow> error + int" where
  "board_mirroring board pad_info =
     (let board_type = map_of (attrib board) ''type''
      in if (case board_type of None \<Rightarrow> False | Some t \<Rightarrow> t \<in> FOUR_SCREEN_BOARDS) then
           (case pad_info of
              None \<Rightarrow> Inr MIRROR_FOUR_SCREEN
            | Some (pad, pad_h, pad_v) \<Rightarrow>
                if element_truth pad \<and> (pad_h \<noteq> 0 \<or> pad_v \<noteq> 0) then
                  Inl (Exception ''H and/or V pads set on four screen mirroring game'')
                else Inr MIRROR_FOUR_SCREEN)
         else
           (case pad_info of
              None \<Rightarrow> Inr MIRROR_CONTROLLED
            | Some (pad, pad_h, pad_v) \<Rightarrow>
                if pad_h \<noteq> 0 then Inr MIRROR_VERTICAL
                else if pad_v \<noteq> 0 then Inr MIRROR_HORIZONTAL
                else Inl (Exception ''should never get here'')))"

definition parse_db_entry :: "(string \<Rightarrow> int option) \<Rightarrow> element \<Rightarrow> error + (string \<times> ROMInfo)" where
  "parse_db_entry int_of elem =
     (case map_of (attrib elem) ''crc'' of
        None \<Rightarrow> Inl (KeyError ''crc'')
      | Some crc \<Rightarrow>
     (case map_of (attrib elem) ''system'' of
        None \<Rightarrow> Inl (KeyError ''system'')
      | Some system \<Rightarrow>
     (case etree_find_one elem ''board'' False of
        Inl ex \<Rightarrow> Inl ex
      | Inr None \<Rightarrow> Inl (Exception ''cannot find board element'')
      | Inr (Some board) \<Rightarrow>
     (case int_attr int_of board ''mapper'' of
        Inl ex \<Rightarrow> Inl ex
      | Inr mapper' \<Rightarrow>
     (case sum_sizes int_of (findall board ''prg'') of
        Inl ex \<Rightarrow> Inl ex
      | Inr prg_rom_size' \<Rightarrow>
     (case sum_sizes int_of (findall board ''wram'') of
        Inl ex \<Rightarrow> Inl ex
      | Inr prg_ram_size' \<Rightarrow>
     (case sum_sizes int_of (findall board ''chr'') of
        Inl ex \<Rightarrow> Inl ex
      | Inr chr_rom_size' \<Rightarrow>
     (case parse_pad int_of board of
        Inl ex \<Rightarrow> Inl ex
      | Inr pad_info \<Rightarrow>
     (case board_mirroring board pad_info of
        Inl ex \<Rightarrow> Inl ex
      | Inr mirroring' \<Rightarrow>
          Inr (upper crc,
               ROMInfo_init prg_rom_size' prg_ram_size' chr_rom_size' mapper' mirroring'
                 (if system \<in> PAL_SYSTEMS then TV_PAL else TV_NTSC)
                 (list_ex (\<lambda>e. map_of (attrib e) ''battery'' = Some ''1'') (descendants board))
                 False
                 (lower system = ''playchoice-10'')
                 (lower system = ''vs-unisystem'')))))))))))"

subsection \<open>The reference database: \<^verbatim>\<open>load_db\<close>\<close>

text \<open>
  Python values that the merge compares with \<^verbatim>\<open>==\<close>: \<^verbatim>\<open>None\<close>, an integer, a tuple.
  Values of different kinds are never equal, integers are equal when they are the same
  number, tuples when they agree item by item: that is the equality of this datatype.
\<close>

datatype pyval = PyNone | PyInt int | PyTuple "pyval list"

datatype warning = MultipleDifferentEntries string | DuplicateIdenticalEntries string

type_synonym db = "(string \<times> ROMInfo) list"

text \<open>
  The body of the loop of \<^verbatim>\<open>load_db\<close> for one parsed entry. The dictionary \<open>db\<close> is an
  association list; \<^verbatim>\<open>differences.pop("tv_system", None)\<close> gives the pair that
  \<^verbatim>\<open>diff\<close> stored under that key, or \<^verbatim>\<open>None\<close>.
\<close>

definition merge_entry :: "db \<times> warning list \<Rightarrow> string \<Rightarrow> ROMInfo \<Rightarrow> db \<times> warning list" where
  "merge_entry state crc rom_info' =
     (let (database, log) = state
      in case map_of database crc of
           None \<Rightarrow> (AList.update crc rom_info' database, log)
         | Some existing_rom_info \<Rightarrow>
             let differences = diff existing_rom_info rom_info';
                 existing_tv_system =
                   (case map_of differences ''tv_system'' of
                      None \<Rightarrow> PyNone
                    | Some (self_val, other_val) \<Rightarrow> PyTuple [PyInt self_val, PyInt other_val]);
                 differences' = AList.delete ''tv_system'' differences
             in if differences' \<noteq> [] then
                  (database, log @ [MultipleDifferentEntries crc])
                else if existing_tv_system = PyInt TV_BOTH
                        \<or> PyInt (tv_system rom_info') = existing_tv_system then
                  (database, log @ [DuplicateIdenticalEntries crc])
                else
                  (AList.update crc (existing_rom_info\<lparr>tv_system := TV_BOTH\<rparr>) database, log))"

text \<open>
  \<^verbatim>\<open>load_db\<close> over the events of \<^verbatim>\<open>ElementTree.iterparse\<close>, each with its element as
  it is when the event is delivered. The first event only names the root. The calls of
  \<^verbatim>\<open>clear\<close> free elements that have been dealt with and are not modelled. The result is
  the dictionary and the warnings logged, or the exception that ends the load.
\<close>

fun load_db_loop ::
  "(string \<Rightarrow> int option) \<Rightarrow> (string \<times> element) list \<Rightarrow> db \<times> warning list
     \<Rightarrow> error + (db \<times> warning list)" where
  "load_db_loop int_of [] state = Inr state"
| "load_db_loop int_of ((event, elem) # rest) state =
     (if event = ''end'' \<and> tag elem \<in> {''cartridge'', ''arcade''} then
        (case parse_db_entry int_of elem of
           Inl ex \<Rightarrow> Inl ex
         | Inr (crc, rom_info') \<Rightarrow> load_db_loop int_of rest (merge_entry state crc rom_info'))
      else load_db_loop int_of rest state)"

definition load_db :: "(string \<Rightarrow> int option) \<Rightarrow> (string \<times> element) list \<Rightarrow> error + (db \<times> warning list)" where
  "load_db int_of events =
     (case events of
        [] \<Rightarrow> Inl StopIteration
      | root_event # rest \<Rightarrow> load_db_loop int_of rest ([], []))"

text \<open>
  A reader of plain decimal digit strings, on which it agrees with \<^verbatim>\<open>int\<close>; it stands
  for \<open>int_of\<close> where a concrete entry is evaluated.
\<close>

definition decimal :: "string \<Rightarrow> int option" where
  "decimal s =
     (if isdigit s then Some (foldl (\<lambda>acc c. 10 * acc + (int (of_char c) - 48)) 0 s)
      else None)"

subsection \<open>Notions used in the statements\<close>

text \<open>
  The six bytes that \<^verbatim>\<open>make_ines_header\<close> computes after the magic, by the names of its
  local variables.
\<close>

definition flags_6 :: "ROMInfo \<Rightarrow> int" where
  "flags_6 r = push_bit 4 (mapper r AND 0xF) OR (mirroring r AND 0xF)
                 OR push_bit 2 (of_bool (has_trainer r)) OR push_bit 1 (of_bool (has_nvram r))"

definition flags_7 :: "ROMInfo \<Rightarrow> int" where
  "flags_7 r = (mapper r AND 0xF0) OR push_bit 1 (of_bool (is_playchoice_10 r))
                 OR of_bool (is_vs_unisystem r)"

definition flags_9 :: "ROMInfo \<Rightarrow> int" where
  "flags_9 r = tv_system r AND 1"

text \<open>
  A record within the representable ranges: the sizes and the mapper as the header can
  hold them, the mirroring and the TV timing among the values of their enumerations.
\<close>

definition representable :: "ROMInfo \<Rightarrow> bool" where
  "representable r =
     (prg_rom_size r mod 16384 = 0 \<and> 0 \<le> prg_rom_size r \<and> prg_rom_size r \<le> 255 * 16384
      \<and> chr_rom_size r mod 8192 = 0 \<and> 0 \<le> chr_rom_size r \<and> chr_rom_size r \<le> 255 * 8192
      \<and> 0 \<le> mapper r \<and> mapper r \<le> 255
      \<and> 0 \<le> prg_ram_size r \<and> prg_ram_size r \<le> 255 * 8192
      \<and> mirroring r \<in> {MIRROR_HORIZONTAL, MIRROR_VERTICAL, MIRROR_FOUR_SCREEN,
                         MIRROR_FOUR_SCREEN_ODD, MIRROR_CONTROLLED}
      \<and> tv_system r \<in> {TV_NTSC, TV_PAL, TV_BOTH})"

text \<open>
  What a record becomes when it is written and read back: the program-RAM size rounded up
  to a multiple of 8192, mapper-controlled mirroring read as horizontal, the TV timing
  "both" read as NTSC.
\<close>

definition written_and_read :: "ROMInfo \<Rightarrow> ROMInfo" where
  "written_and_read r =
     r\<lparr> prg_ram_size := ceil_div_8192 (prg_ram_size r) * 8192,
        mirroring := (if mirroring r = MIRROR_CONTROLLED then MIRROR_HORIZONTAL else mirroring r),
        tv_system := (if tv_system r = TV_BOTH then TV_NTSC else tv_system r) \<rparr>"

section \<open>Verification\<close>

subsection \<open>Facts about bit fields and bytes\<close>

lemma and_16383: "(p::int) AND 16383 = p mod 16384"
proof -
  have "p AND mask 14 = p mod 2 ^ 14"
    by (simp add: take_bit_eq_mod flip: take_bit_eq_mask)
  then show ?thesis by (simp add: mask_eq_exp_minus_1)
qed

lemma and_8191: "(p::int) AND 8191 = p mod 8192"
proof -
  have "p AND mask 13 = p mod 2 ^ 13"
    by (simp add: take_bit_eq_mod flip: take_bit_eq_mask)
  then show ?thesis by (simp add: mask_eq_exp_minus_1)
qed

text \<open>The flag bytes range over few values, so their bit fields are checked case by case.\<close>

lemma flags_6_bits_all:
  "\<forall>m\<in>set [0..255]. \<forall>mir\<in>set [0, 1, 8, 9, 16]. \<forall>nv\<in>set [False, True].
     (let f6 = push_bit 4 (m AND 0xF) OR (mir AND 0xF) OR push_bit 2 (of_bool False)
                 OR push_bit 1 (of_bool nv) :: int
      in 0 \<le> f6 \<and> f6 < 256 \<and> f6 AND 4 = 0 \<and> f6 AND 0xF0 = push_bit 4 (m AND 0xF)
         \<and> f6 AND 9 = (if mir = 16 then 0 else mir) \<and> (f6 AND 2 \<noteq> 0) = nv)"
  by code_simp

lemma flags_7_bits_all:
  "\<forall>m\<in>set [0..255]. \<forall>pc\<in>set [False, True]. \<forall>vs\<in>set [False, True].
     (let f7 = (m AND 0xF0) OR push_bit 1 (of_bool pc) OR of_bool vs :: int
      in 0 \<le> f7 \<and> f7 < 256 \<and> f7 AND 0xC \<noteq> 8 \<and> f7 AND 0xF0 = m AND 0xF0
         \<and> (f7 AND 2 \<noteq> 0) = pc \<and> (f7 AND 1 \<noteq> 0) = vs)"
  by code_simp

lemma mapper_bits_all:
  "\<forall>m\<in>set [0..255]. (m AND 0xF0) + drop_bit 4 (push_bit 4 (m AND 0xF)) = (m::int)"
  by code_simp

lemma byte_tests_all:
  "\<forall>x\<in>set [0..255]. ((x AND 0xC = 8) = (bit x 3 \<and> \<not> bit x 2)) \<and> ((x AND 4 \<noteq> 0) = bit (x::int) 2)"
  by code_simp

lemma flags_6_bits:
  assumes "0 \<le> mapper r" "mapper r \<le> 255" "mirroring r \<in> {0, 1, 8, 9, 16}" "\<not> has_trainer r"
  shows "0 \<le> flags_6 r" "flags_6 r < 256" "flags_6 r AND 4 = 0"
    "flags_6 r AND 0xF0 = push_bit 4 (mapper r AND 0xF)"
    "flags_6 r AND 9 = (if mirroring r = 16 then 0 else mirroring r)"
    "(flags_6 r AND 2 \<noteq> 0) = has_nvram r"
proof -
  have "mapper r \<in> set [0..255]" "mirroring r \<in> set [0, 1, 8, 9, 16]"
    "has_nvram r \<in> set [False, True]"
    using assms by auto
  from flags_6_bits_all[rule_format, OF this] assms(4)
  show "0 \<le> flags_6 r" "flags_6 r < 256" "flags_6 r AND 4 = 0"
    "flags_6 r AND 0xF0 = push_bit 4 (mapper r AND 0xF)"
    "flags_6 r AND 9 = (if mirroring r = 16 then 0 else mirroring r)"
    "(flags_6 r AND 2 \<noteq> 0) = has_nvram r"
    by (simp_all add: flags_6_def Let_def)
qed

lemma flags_7_bits:
  assumes "0 \<le> mapper r" "mapper r \<le> 255"
  shows "0 \<le> flags_7 r" "flags_7 r < 256" "flags_7 r AND 0xC \<noteq> 8"
    "flags_7 r AND 0xF0 = mapper r AND 0xF0"
    "(flags_7 r AND 2 \<noteq> 0) = is_playchoice_10 r"
    "(flags_7 r AND 1 \<noteq> 0) = is_vs_unisystem r"
proof -
  have "mapper r \<in> set [0..255]" "is_playchoice_10 r \<in> set [False, True]"
    "is_vs_unisystem r \<in> set [False, True]"
    using assms by auto
  from flags_7_bits_all[rule_format, OF this]
  show "0 \<le> flags_7 r" "flags_7 r < 256" "flags_7 r AND 0xC \<noteq> 8"
    "flags_7 r AND 0xF0 = mapper r AND 0xF0"
    "(flags_7 r AND 2 \<noteq> 0) = is_playchoice_10 r"
    "(flags_7 r AND 1 \<noteq> 0) = is_vs_unisystem r"
    by (simp_all add: flags_7_def Let_def)
qed

lemma flags_9_bits:
  assumes "tv_system r \<in> {0, 1, 2}"
  shows "0 \<le> flags_9 r" "flags_9 r < 256"
    "flags_9 r AND 1 = (if tv_system r = 2 then 0 else tv_system r)"
  using assms by (auto simp: flags_9_def)

lemma ceil_div_8192_range:
  "0 \<le> s \<Longrightarrow> s \<le> 255 * 8192 \<Longrightarrow> 0 \<le> ceil_div_8192 s \<and> ceil_div_8192 s < 256"
  unfolding ceil_div_8192_def by arith

lemma bytearray_extend_ok:
  "\<forall>i\<in>set xs. 0 \<le> i \<and> i < 256 \<Longrightarrow> bytearray_extend h xs = Inr (h @ map word_of_int xs)"
  by (induction xs arbitrary: h) auto

lemma bytearray_extend_length:
  "bytearray_extend h xs = Inr h' \<Longrightarrow> length h' = length h + length xs"
  by (induction xs arbitrary: h) (auto split: if_splits)

lemma uint_byte: "0 \<le> i \<Longrightarrow> i < 256 \<Longrightarrow> uint (word_of_int i :: byte) = i"
  by (simp add: uint_word_of_int)

lemma byte_at_range: "byte_at bs i \<in> set [0..255]"
proof -
  have "0 \<le> uint (bs ! i)" "uint (bs ! i) < 256"
    using uint_bounded[of "bs ! i"] by simp_all
  then show ?thesis by (simp add: byte_at_def)
qed

lemma nes_is_not_unif: "startswith bs NES_MAGIC \<Longrightarrow> \<not> startswith bs UNIF_MAGIC"
  by (auto simp: startswith_def NES_MAGIC_def UNIF_MAGIC_def)

lemma startswith_take: "length p \<le> n \<Longrightarrow> startswith (take n bs) p = startswith bs p"
  by (simp add: startswith_def min_def)

subsection \<open>Writing a header\<close>

lemma make_ines_header_ok:
  assumes "representable r"
  shows "make_ines_header r = bytearray_extend NES_MAGIC
     [prg_rom_size r div 16384, chr_rom_size r div 8192, flags_6 r, flags_7 r,
      ceil_div_8192 (prg_ram_size r), flags_9 r]"
  using assms
  by (simp add: make_ines_header_def representable_def and_16383 and_8191
      flags_6_def flags_7_def flags_9_def Let_def)

lemma make_ines_header_length:
  "make_ines_header r = Inr h \<Longrightarrow> length h = 10"
  by (auto simp: make_ines_header_def Let_def NES_MAGIC_def
      dest!: bytearray_extend_length split: if_splits)

lemma header_bytes_of:
  assumes "representable r" "\<not> has_trainer r"
  shows "make_ines_header r = Inr (NES_MAGIC @ map word_of_int
     [prg_rom_size r div 16384, chr_rom_size r div 8192, flags_6 r, flags_7 r,
      ceil_div_8192 (prg_ram_size r), flags_9 r])"
proof -
  have rng: "0 \<le> mapper r" "mapper r \<le> 255" "mirroring r \<in> {0, 1, 8, 9, 16}"
    "tv_system r \<in> {0, 1, 2}" "0 \<le> prg_ram_size r" "prg_ram_size r \<le> 255 * 8192"
    "0 \<le> prg_rom_size r" "prg_rom_size r \<le> 255 * 16384"
    "0 \<le> chr_rom_size r" "chr_rom_size r \<le> 255 * 8192"
    using assms(1) by (simp_all add: representable_def)
  have "0 \<le> prg_rom_size r div 16384 \<and> prg_rom_size r div 16384 < 256"
    using rng(7,8) by auto
  moreover have "0 \<le> chr_rom_size r div 8192 \<and> chr_rom_size r div 8192 < 256"
    using rng(9,10) by auto
  moreover note flags_6_bits(1,2)[OF rng(1,2,3) assms(2)] flags_7_bits(1,2)[OF rng(1,2)]
    ceil_div_8192_range[OF rng(5,6)] flags_9_bits(1,2)[OF rng(4)]
  ultimately have "\<forall>i\<in>set [prg_rom_size r div 16384, chr_rom_size r div 8192, flags_6 r,
      flags_7 r, ceil_div_8192 (prg_ram_size r), flags_9 r]. 0 \<le> i \<and> i < 256"
    by simp
  from bytearray_extend_ok[OF this] make_ines_header_ok[OF assms(1)] show ?thesis
    by simp
qed

text \<open>
  C1 (the code departs from the claim). \<^verbatim>\<open>make_ines_header\<close> returns the magic and the
  six computed bytes and stops there: ten bytes, with no padding to sixteen. For the record
  of a 32 KiB program ROM and an 8 KiB character ROM the header is the ten bytes below, and
  inserting it into a bare file of 100 bytes gives a file of 110 bytes, not 116; what
  \<^verbatim>\<open>_make_file_info\<close> then takes for the payload, the bytes after the first sixteen, is
  the last 94 bytes of the original.
\<close>

theorem make_ines_header_is_ten_bytes:
  "make_ines_header (ROMInfo_init 32768 0 8192 0 0 0 False False False False)
     = Inr [0x4E, 0x45, 0x53, 0x1A, 2, 1, 0, 0, 0, 0]
   \<and> (\<exists>the_file. update_file (replicate 100 0xAA)
         [\<lparr> file_info = FileInfo_init ''rom.nes'' ''00000000'' None None,
            req_type = REQ_HEADER_INSERT,
            req_rom_info = ROMInfo_init 32768 0 8192 0 0 0 False False False False \<rparr>]
         = (None, the_file)
       \<and> length the_file = 110
       \<and> take 10 the_file = [0x4E, 0x45, 0x53, 0x1A, 2, 1, 0, 0, 0, 0]
       \<and> drop 10 the_file = replicate 100 0xAA
       \<and> drop MIN_HEADER_READ_SIZE the_file = replicate 94 0xAA)"
proof -
  have h: "make_ines_header (ROMInfo_init 32768 0 8192 0 0 0 False False False False)
     = Inr [0x4E, 0x45, 0x53, 0x1A, 2, 1, 0, 0, 0, 0]"
    by (simp add: make_ines_header_def ROMInfo_init_def NES_MAGIC_def ceil_div_8192_def)
  show ?thesis
    by (simp add: h)
qed


theorem make_ines_header_is_ten_bytes_witness:
  "\<exists>h. make_ines_header (ROMInfo_init 32768 0 8192 0 0 0 False False False False) = Inr h
        \<and> length h = 10"
  using make_ines_header_is_ten_bytes by simp

subsection \<open>Reading back what was written\<close>

lemma parse_written_header:
  assumes "representable r" "\<not> has_trainer r"
    and vals: "vals = [prg_rom_size r div 16384, chr_rom_size r div 8192, flags_6 r,
      flags_7 r, ceil_div_8192 (prg_ram_size r), flags_9 r]"
    and len: "16 \<le> length ((NES_MAGIC @ map word_of_int vals) @ rest)"
  shows "parse_header ((NES_MAGIC @ map word_of_int vals) @ rest) = Inr (Some (written_and_read r))"
proof -
  have rng: "0 \<le> mapper r" "mapper r \<le> 255" "mirroring r \<in> {0, 1, 8, 9, 16}"
    "tv_system r \<in> {0, 1, 2}" "0 \<le> prg_ram_size r" "prg_ram_size r \<le> 255 * 8192"
    "0 \<le> prg_rom_size r" "prg_rom_size r \<le> 255 * 16384"
    "0 \<le> chr_rom_size r" "chr_rom_size r \<le> 255 * 8192"
    "prg_rom_size r mod 16384 = 0" "chr_rom_size r mod 8192 = 0"
    using assms(1) by (simp_all add: representable_def)
  let ?bs = "(NES_MAGIC @ map word_of_int vals) @ rest"
  note f6 = flags_6_bits[OF rng(1,2,3) assms(2)]
  note f7 = flags_7_bits[OF rng(1,2)]
  note ram = ceil_div_8192_range[OF rng(5,6)]
  note tv = flags_9_bits[OF rng(4)]
  have b4: "byte_at ?bs 4 = prg_rom_size r div 16384"
    using rng(7,8) by (simp add: vals byte_at_def NES_MAGIC_def uint_byte)
  have b5: "byte_at ?bs 5 = chr_rom_size r div 8192"
    using rng(9,10) by (simp add: vals byte_at_def NES_MAGIC_def uint_byte)
  have b6: "byte_at ?bs 6 = flags_6 r"
    using f6(1,2) by (simp add: vals byte_at_def NES_MAGIC_def uint_byte)
  have b7: "byte_at ?bs 7 = flags_7 r"
    using f7(1,2) by (simp add: vals byte_at_def NES_MAGIC_def uint_byte)
  have b8: "byte_at ?bs 8 = ceil_div_8192 (prg_ram_size r)"
    using ram by (simp add: vals byte_at_def NES_MAGIC_def uint_byte)
  have b9: "byte_at ?bs 9 = flags_9 r"
    using tv(1,2) by (simp add: vals byte_at_def NES_MAGIC_def uint_byte)
  have st: "startswith ?bs NES_MAGIC" "\<not> startswith ?bs UNIF_MAGIC"
    by (simp_all add: startswith_def NES_MAGIC_def UNIF_MAGIC_def)
  have mp: "(flags_7 r AND 0xF0) + drop_bit 4 (flags_6 r AND 0xF0) = mapper r"
    using mapper_bits_all rng(1,2) by (simp add: f6(4) f7(4))
  have prg: "prg_rom_size r div 16384 * 16384 = prg_rom_size r"
    using rng(11) div_mult_mod_eq[of "prg_rom_size r" 16384] by simp
  have chr: "chr_rom_size r div 8192 * 8192 = chr_rom_size r"
    using rng(12) div_mult_mod_eq[of "chr_rom_size r" 8192] by simp
  have "parse_header ?bs = Inr (Some (ROMInfo_init
      (prg_rom_size r) (ceil_div_8192 (prg_ram_size r) * 8192) (chr_rom_size r) (mapper r)
      (if mirroring r = 16 then 0 else mirroring r)
      (if tv_system r = 2 then 0 else tv_system r)
      (has_nvram r) False (is_playchoice_10 r) (is_vs_unisystem r)))"
    unfolding parse_header_def b4 b5 b6 b7 b8 b9
    using len st f6(3,5,6) f7(3,5,6) tv(3) mp prg chr
    by (simp add: NES_MAGIC_def)
  also have "\<dots> = Inr (Some (written_and_read r))"
    using assms(2) by (cases r) (simp add: written_and_read_def ROMInfo_init_def)
  finally show ?thesis .
qed

text \<open>
  C2, the claim as stated fails. A record with mapper-controlled mirroring is within the
  representable ranges; the claim says it is read back unchanged (its program-RAM size is
  a multiple of 8192 and its TV timing is NTSC), but it is read back with horizontal
  mirroring. The header is read here with the six zero bytes that fill it to the sixteen
  bytes the reader asks for.
\<close>

theorem roundtrip_mirroring_counterexample:
  "representable (ROMInfo_init 32768 0 8192 0 MIRROR_CONTROLLED TV_NTSC False False False False)
   \<and> (\<exists>h. make_ines_header
              (ROMInfo_init 32768 0 8192 0 MIRROR_CONTROLLED TV_NTSC False False False False) = Inr h
        \<and> parse_header (h @ replicate 6 0)
            = Inr (Some (ROMInfo_init 32768 0 8192 0 MIRROR_HORIZONTAL TV_NTSC False False False False))
        \<and> parse_header (h @ replicate 6 0)
            \<noteq> Inr (Some (ROMInfo_init 32768 0 8192 0 MIRROR_CONTROLLED TV_NTSC False False False False)))"
proof -
  have h: "make_ines_header
      (ROMInfo_init 32768 0 8192 0 MIRROR_CONTROLLED TV_NTSC False False False False)
     = Inr [0x4E, 0x45, 0x53, 0x1A, 2, 1, 0, 0, 0, 0]"
    by (simp add: make_ines_header_def ROMInfo_init_def NES_MAGIC_def ceil_div_8192_def)
  have p: "parse_header ([0x4E, 0x45, 0x53, 0x1A, 2, 1, 0, 0, 0, 0] @ replicate 6 0)
     = Inr (Some (ROMInfo_init 32768 0 8192 0 MIRROR_HORIZONTAL TV_NTSC False False False False))"
    by (simp add: parse_header_def startswith_def NES_MAGIC_def UNIF_MAGIC_def byte_at_def
        ROMInfo_init_def)
  have r: "representable
      (ROMInfo_init 32768 0 8192 0 MIRROR_CONTROLLED TV_NTSC False False False False)"
    by (simp add: representable_def ROMInfo_init_def)
  show ?thesis
  proof (intro conjI exI[where x = "[0x4E, 0x45, 0x53, 0x1A, 2, 1, 0, 0, 0, 0]"])
    show "representable
        (ROMInfo_init 32768 0 8192 0 MIRROR_CONTROLLED TV_NTSC False False False False)"
      by (rule r)
    show "make_ines_header
        (ROMInfo_init 32768 0 8192 0 MIRROR_CONTROLLED TV_NTSC False False False False)
       = Inr [0x4E, 0x45, 0x53, 0x1A, 2, 1, 0, 0, 0, 0]"
      by (rule h)
    show "parse_header ([0x4E, 0x45, 0x53, 0x1A, 2, 1, 0, 0, 0, 0] @ replicate 6 0)
       = Inr (Some (ROMInfo_init 32768 0 8192 0 MIRROR_HORIZONTAL TV_NTSC False False False False))"
      by (rule p)
    show "parse_header ([0x4E, 0x45, 0x53, 0x1A, 2, 1, 0, 0, 0, 0] @ replicate 6 0)
       \<noteq> Inr (Some (ROMInfo_init 32768 0 8192 0 MIRROR_CONTROLLED TV_NTSC False False False False))"
      unfolding p by (simp add: ROMInfo_init_def)
  qed
qed

text \<open>
  C2, amended. For every record within the representable ranges that has no trainer,
  \<^verbatim>\<open>make_ines_header\<close> succeeds, and every input of at least sixteen bytes that begins
  with the bytes it wrote is parsed to the record \<open>written_and_read r\<close>: the original,
  except that the program-RAM size is rounded up to the next multiple of 8192, a TV timing
  of "both" comes back as NTSC, and mapper-controlled mirroring comes back as horizontal.
\<close>

theorem roundtrip_amended:
  assumes "representable r" "\<not> has_trainer r"
  shows "\<exists>h. make_ines_header r = Inr h
           \<and> (\<forall>rest. 16 \<le> length (h @ rest)
                 \<longrightarrow> parse_header (h @ rest) = Inr (Some (written_and_read r)))"
  using header_bytes_of[OF assms] parse_written_header[OF assms refl] by simp

theorem roundtrip_amended_witness:
  "representable (ROMInfo_init 32768 2048 8192 0x4A MIRROR_CONTROLLED TV_BOTH True False False True)
   \<and> \<not> has_trainer (ROMInfo_init 32768 2048 8192 0x4A MIRROR_CONTROLLED TV_BOTH True False False True)
   \<and> make_ines_header (ROMInfo_init 32768 2048 8192 0x4A MIRROR_CONTROLLED TV_BOTH True False False True)
       = Inr [0x4E, 0x45, 0x53, 0x1A, 2, 1, 0xA2, 0x41, 1, 0]
   \<and> parse_header ([0x4E, 0x45, 0x53, 0x1A, 2, 1, 0xA2, 0x41, 1, 0] @ replicate 6 0)
       = Inr (Some (ROMInfo_init 32768 8192 8192 0x4A MIRROR_HORIZONTAL TV_NTSC True False False True))"
proof -
  let ?r = "ROMInfo_init 32768 2048 8192 0x4A MIRROR_CONTROLLED TV_BOTH True False False True"
  have rep: "representable ?r" by (simp add: representable_def ROMInfo_init_def)
  have tr: "\<not> has_trainer ?r" by (simp add: ROMInfo_init_def)
  have h: "make_ines_header ?r = Inr [0x4E, 0x45, 0x53, 0x1A, 2, 1, 0xA2, 0x41, 1, 0]"
    by (simp add: make_ines_header_def ROMInfo_init_def NES_MAGIC_def ceil_div_8192_def)
  have w: "written_and_read ?r
     = ROMInfo_init 32768 8192 8192 0x4A MIRROR_HORIZONTAL TV_NTSC True False False True"
    by (simp add: written_and_read_def ROMInfo_init_def ceil_div_8192_def)
  from roundtrip_amended[OF rep tr] h
  have "parse_header ([0x4E, 0x45, 0x53, 0x1A, 2, 1, 0xA2, 0x41, 1, 0] @ replicate 6 0)
     = Inr (Some (written_and_read ?r))"
    by auto
  with rep tr h w show ?thesis by simp
qed

text \<open>
  C4, the claim as stated fails. \<^verbatim>\<open>ROMInfo.__init__\<close> checks nothing: given a program-ROM
  size of 256 units, one more than a byte can count, it returns a record that holds this
  size.
\<close>

theorem constructor_accepts_out_of_range_counterexample:
  "prg_rom_size (ROMInfo_init (256 * 16384) 0 0 0 0 0 False False False False) = 256 * 16384
   \<and> prg_rom_size (ROMInfo_init (256 * 16384) 0 0 0 0 0 False False False False) div 16384 > 255"
  by (simp add: ROMInfo_init_def)

text \<open>
  C4, amended. The constructor stores the sizes as they are given, and the range is checked
  when the record is written: for every record whose PRG-ROM, CHR-ROM or PRG-RAM size is
  negative or above 255 units, \<^verbatim>\<open>make_ines_header\<close> raises and returns no header, so no
  size is ever truncated into a byte.
\<close>

theorem sizes_checked_on_write:
  assumes "prg_rom_size' < 0 \<or> 255 * 16384 < prg_rom_size'
         \<or> chr_rom_size' < 0 \<or> 255 * 8192 < chr_rom_size'
         \<or> prg_ram_size' < 0 \<or> 255 * 8192 < prg_ram_size'"
  shows "prg_rom_size (ROMInfo_init prg_rom_size' prg_ram_size' chr_rom_size' mapper' mirroring'
            tv_system' has_nvram' has_trainer' is_playchoice_10' is_vs_unisystem') = prg_rom_size'
       \<and> prg_ram_size (ROMInfo_init prg_rom_size' prg_ram_size' chr_rom_size' mapper' mirroring'
            tv_system' has_nvram' has_trainer' is_playchoice_10' is_vs_unisystem') = prg_ram_size'
       \<and> chr_rom_size (ROMInfo_init prg_rom_size' prg_ram_size' chr_rom_size' mapper' mirroring'
            tv_system' has_nvram' has_trainer' is_playchoice_10' is_vs_unisystem') = chr_rom_size'
       \<and> (\<exists>msg. make_ines_header (ROMInfo_init prg_rom_size' prg_ram_size' chr_rom_size' mapper'
            mirroring' tv_system' has_nvram' has_trainer' is_playchoice_10' is_vs_unisystem')
              = Inl (Exception msg))"
  using assms by (auto simp: make_ines_header_def ROMInfo_init_def Let_def)

theorem sizes_checked_on_write_witness:
  "(255 * 8192 < (256 * 8192 :: int))
   \<and> (\<exists>msg. make_ines_header (ROMInfo_init 16384 (256 * 8192) 8192 0 0 0 False False False False)
        = Inl (Exception msg))"
  using sizes_checked_on_write[of 16384 8192 "256 * 8192" 0 0 0 False False False False]
  by simp

subsection \<open>What the parser refuses\<close>

lemma byte_tests:
  "(byte_at bs i AND 0xC = 8) = (bit (bs ! i) 3 \<and> \<not> bit (bs ! i) 2)"
  "(byte_at bs i AND 4 \<noteq> 0) = bit (bs ! i) 2"
  using byte_tests_all[rule_format, OF byte_at_range[of bs i]]
  by (simp_all add: byte_at_def bit_uint_iff)

text \<open>
  C8. An input of at least sixteen bytes that begins with the magic \<^verbatim>\<open>NES\x1a\<close> and whose
  byte 7 has bit 3 set and bit 2 clear (the second-generation format), or whose byte 6 has
  bit 2 set (a trainer), makes \<^verbatim>\<open>parse_header\<close> raise \<^verbatim>\<open>SkipROM\<close>; so does an input of
  that length that begins with \<^verbatim>\<open>UNIF\<close>. No record is returned.
\<close>

theorem parse_header_skips_unsupported:
  assumes "16 \<le> length header_bytes"
    and "(startswith header_bytes NES_MAGIC
            \<and> ((bit (header_bytes ! 7) 3 \<and> \<not> bit (header_bytes ! 7) 2) \<or> bit (header_bytes ! 6) 2))
         \<or> startswith header_bytes UNIF_MAGIC"
  shows "\<exists>msg. parse_header header_bytes = Inl (SkipROM msg)"
  using assms by (auto simp: parse_header_def byte_tests dest: nes_is_not_unif)

theorem parse_header_skips_unsupported_witness:
  "(\<exists>msg. parse_header ([0x4E, 0x45, 0x53, 0x1A, 2, 1, 0, 8] @ replicate 8 0) = Inl (SkipROM msg))
   \<and> (\<exists>msg. parse_header ([0x4E, 0x45, 0x53, 0x1A, 2, 1, 4, 0] @ replicate 8 0) = Inl (SkipROM msg))
   \<and> (\<exists>msg. parse_header ([0x55, 0x4E, 0x49, 0x46] @ replicate 12 0) = Inl (SkipROM msg))"
proof (intro conjI)
  show "\<exists>msg. parse_header ([0x4E, 0x45, 0x53, 0x1A, 2, 1, 0, 8] @ replicate 8 0) = Inl (SkipROM msg)"
    by (rule parse_header_skips_unsupported) (simp_all add: startswith_def NES_MAGIC_def)
  show "\<exists>msg. parse_header ([0x4E, 0x45, 0x53, 0x1A, 2, 1, 4, 0] @ replicate 8 0) = Inl (SkipROM msg)"
    by (rule parse_header_skips_unsupported) (simp_all add: startswith_def NES_MAGIC_def)
  show "\<exists>msg. parse_header ([0x55, 0x4E, 0x49, 0x46] @ replicate 12 0) = Inl (SkipROM msg)"
    by (rule parse_header_skips_unsupported) (simp_all add: startswith_def UNIF_MAGIC_def)
qed

subsection \<open>Differences between two records\<close>

lemma differs_commute: "differs b a = differs a b"
  by (rule ext) (auto simp: differs_def is_ignored_mirroring_diff_def Let_def or.commute)

text \<open>
  C9. \<open>diff b a\<close> is \<open>diff a b\<close> with the two values of every entry swapped; in particular
  both report the same field names. The exceptions for the mirroring and for the TV
  timing are part of \<open>diff\<close> and hold in both directions.
\<close>

theorem diff_symmetric:
  "diff b a = map (\<lambda>(attr, self_val, other_val). (attr, other_val, self_val)) (diff a b)
   \<and> fst ` set (diff b a) = fst ` set (diff a b)"
proof -
  have swap: "diff b a = map (\<lambda>(attr, self_val, other_val). (attr, other_val, self_val)) (diff a b)"
    by (simp add: diff_def differs_commute[of b a] comp_def)
  have "map fst (diff b a) = map fst (diff a b)"
    by (simp add: diff_def differs_commute[of b a] comp_def)
  then have "set (map fst (diff b a)) = set (map fst (diff a b))" by simp
  then have "fst ` set (diff b a) = fst ` set (diff a b)" by simp
  with swap show ?thesis by simp
qed

theorem diff_symmetric_witness:
  "diff (ROMInfo_init 32768 0 8192 1 MIRROR_VERTICAL TV_PAL False False False False)
        (ROMInfo_init 32768 0 8192 0 MIRROR_CONTROLLED TV_BOTH False False False False)
     = [(''mapper'', 1, 0)]
   \<and> diff (ROMInfo_init 32768 0 8192 0 MIRROR_CONTROLLED TV_BOTH False False False False)
          (ROMInfo_init 32768 0 8192 1 MIRROR_VERTICAL TV_PAL False False False False)
     = [(''mapper'', 0, 1)]"
proof -
  let ?a = "ROMInfo_init 32768 0 8192 0 MIRROR_CONTROLLED TV_BOTH False False False False"
  let ?b = "ROMInfo_init 32768 0 8192 1 MIRROR_VERTICAL TV_PAL False False False False"
  have ab: "diff ?a ?b = [(''mapper'', 0, 1)]"
    by (simp add: diff_def differs_def FIELDS_def getattr_def ROMInfo_init_def
        is_ignored_mirroring_diff_def)
  from diff_symmetric[of ?b ?a, THEN conjunct1] have "diff ?b ?a = [(''mapper'', 1, 0)]"
    by (simp add: ab)
  with ab show ?thesis by simp
qed

subsection \<open>Short inputs\<close>

lemma parse_header_short: "length header_bytes < 16 \<Longrightarrow> parse_header header_bytes = Inl AssertionError"
  by (simp add: parse_header_def)

text \<open>
  C10. For an entity of fewer than sixteen bytes \<^verbatim>\<open>parse_header\<close> fails its assertion; the
  failure passes through \<^verbatim>\<open>_make_file_info\<close> and through the enumeration of a bare file,
  which catch \<^verbatim>\<open>SkipROM\<close> only. The entity is neither reported as headerless nor skipped.
\<close>

theorem short_entity_fails_assertion:
  assumes "length the_file < 16"
  shows "parse_header (take MIN_HEADER_READ_SIZE the_file) = Inl AssertionError
       \<and> make_file_info path the_file data = Inl AssertionError
       \<and> FileIOHandler_iter (files(path \<mapsto> File the_file)) path = Inl AssertionError"
proof -
  have p: "parse_header (take MIN_HEADER_READ_SIZE the_file) = Inl AssertionError"
    using assms by (simp add: parse_header_short)
  have m: "make_file_info path' the_file data' = Inl AssertionError" for path' data'
    by (simp add: make_file_info_def Let_def p)
  show ?thesis
    by (simp add: p m FileIOHandler_iter_def)
qed

theorem short_entity_fails_assertion_witness:
  "length [0x4E, 0x45, 0x53, 0x1A, 2, 1 :: byte] < 16
   \<and> parse_header (take MIN_HEADER_READ_SIZE [0x4E, 0x45, 0x53, 0x1A, 2, 1]) = Inl AssertionError
   \<and> make_file_info ''short.nes'' [0x4E, 0x45, 0x53, 0x1A, 2, 1] None = Inl AssertionError
   \<and> FileIOHandler_iter [''short.nes'' \<mapsto> File [0x4E, 0x45, 0x53, 0x1A, 2, 1]] ''short.nes''
       = Inl AssertionError"
proof -
  have len: "length [0x4E, 0x45, 0x53, 0x1A, 2, 1 :: byte] < 16" by simp
  from short_entity_fails_assertion[OF len, of "''short.nes''" None Map.empty] len
  show ?thesis by simp
qed

subsection \<open>What the checksum covers\<close>

lemma crc32_chain: "binascii_crc32 b (binascii_crc32 a crc) = binascii_crc32 (a @ b) crc"
  by (simp add: binascii_crc32_def)

lemma crc32_rest_eq: "crc32_rest file_obj crc = binascii_crc32 file_obj crc"
proof (induction file_obj crc rule: crc32_rest.induct)
  case (1 file_obj crc)
  show ?case
  proof (cases "take READ_SIZE file_obj = []")
    case True
    then have "file_obj = []" by (cases file_obj) auto
    then show ?thesis by (simp add: binascii_crc32_def crc32_rest.simps)
  next
    case False
    then have "crc32_rest file_obj crc
        = crc32_rest (drop READ_SIZE file_obj) (binascii_crc32 (take READ_SIZE file_obj) crc)"
      by (subst crc32_rest.simps) (simp add: Let_def)
    also have "\<dots> = binascii_crc32 (drop READ_SIZE file_obj)
        (binascii_crc32 (take READ_SIZE file_obj) crc)"
      using 1 False by (simp add: Let_def)
    also have "\<dots> = binascii_crc32 file_obj crc"
      by (simp add: crc32_chain)
    finally show ?thesis .
  qed
qed

text \<open>
  The model of the checksum gives the check value of CRC-32, \<open>CBF43926\<close>, on the digits
  1 to 9; the register is followed byte by byte.
\<close>

lemma crc32_byte_steps:
  "crc32_byte (- 1) 0x31 = 0x7C231048"
  "crc32_byte 0x7C231048 0x32 = 0xB0ACBB32"
  "crc32_byte 0xB0ACBB32 0x33 = 0x77B79C2D"
  "crc32_byte 0x77B79C2D 0x34 = 0x641C1F5C"
  "crc32_byte 0x641C1F5C 0x35 = 0x340AC5E3"
  "crc32_byte 0x340AC5E3 0x36 = 0xF68D2C9E"
  "crc32_byte 0xF68D2C9E 0x37 = 0xAFFC9660"
  "crc32_byte 0xAFFC9660 0x38 = 0x651F2550"
  "crc32_byte 0x651F2550 0x39 = 0x340BC6D9"
  by code_simp+

lemma crc32_check_value:
  "format_08X (binascii_crc32 [0x31, 0x32, 0x33, 0x34, 0x35, 0x36, 0x37, 0x38, 0x39] 0) = ''CBF43926''"
proof -
  have "binascii_crc32 [0x31, 0x32, 0x33, 0x34, 0x35, 0x36, 0x37, 0x38, 0x39] 0 = 0xCBF43926"
  proof -
    have "foldl crc32_byte (- 1) [0x31, 0x32, 0x33, 0x34, 0x35, 0x36, 0x37, 0x38, 0x39] = 0x340BC6D9"
      by (simp only: foldl.simps crc32_byte_steps)
    then show ?thesis by (simp add: binascii_crc32_def)
  qed
  then show ?thesis by (simp add: format_08X_def hex_digit_def)
qed

text \<open>
  C7, the claim as stated fails. An entity of sixteen bytes that begins with \<^verbatim>\<open>UNIF\<close> does
  not begin with \<^verbatim>\<open>NES\x1a\<close>, yet \<^verbatim>\<open>parse_header\<close> does not return "absent" for it: it
  raises \<^verbatim>\<open>SkipROM\<close>, and no checksum is computed.
\<close>

theorem unif_is_not_absent_counterexample:
  "\<not> startswith ([0x55, 0x4E, 0x49, 0x46] @ replicate 12 0) NES_MAGIC
   \<and> parse_header ([0x55, 0x4E, 0x49, 0x46] @ replicate 12 0) \<noteq> Inr None
   \<and> make_file_info ''a.unf'' ([0x55, 0x4E, 0x49, 0x46] @ replicate 12 0) None
       = Inl (SkipROM ''UNIF currently unsupported'')"
  by (simp add: parse_header_def make_file_info_def startswith_def NES_MAGIC_def UNIF_MAGIC_def)

text \<open>
  C7, amended. For every entity of at least sixteen bytes that begins neither with
  \<^verbatim>\<open>NES\x1a\<close> nor with \<^verbatim>\<open>UNIF\<close>, \<^verbatim>\<open>parse_header\<close> returns "absent" and the checksum of
  the item is the CRC-32 of all its bytes; and whenever \<^verbatim>\<open>parse_header\<close> returns a record
  for the first sixteen bytes, the checksum is the CRC-32 of the bytes after these sixteen.
\<close>

theorem checksum_scope:
  "(16 \<le> length the_file \<and> \<not> startswith the_file NES_MAGIC \<and> \<not> startswith the_file UNIF_MAGIC
      \<longrightarrow> parse_header (take MIN_HEADER_READ_SIZE the_file) = Inr None
          \<and> make_file_info path the_file data
              = Inr (FileInfo_init path (format_08X (binascii_crc32 the_file 0)) None data))
   \<and> (parse_header (take MIN_HEADER_READ_SIZE the_file) = Inr (Some r)
      \<longrightarrow> make_file_info path the_file data
              = Inr (FileInfo_init path
                       (format_08X (binascii_crc32 (drop MIN_HEADER_READ_SIZE the_file) 0))
                       (Some r) data))"
proof (intro conjI impI)
  assume a: "16 \<le> length the_file \<and> \<not> startswith the_file NES_MAGIC
      \<and> \<not> startswith the_file UNIF_MAGIC"
  then have st: "\<not> startswith (take 16 the_file) NES_MAGIC" "\<not> startswith (take 16 the_file) UNIF_MAGIC"
    by (simp_all add: startswith_take NES_MAGIC_def UNIF_MAGIC_def)
  from a st show p: "parse_header (take MIN_HEADER_READ_SIZE the_file) = Inr None"
    by (simp add: parse_header_def)
  have "binascii_crc32 (drop 16 the_file) (binascii_crc32 (take 16 the_file) 0)
      = binascii_crc32 the_file 0"
    by (simp add: crc32_chain)
  then show "make_file_info path the_file data
      = Inr (FileInfo_init path (format_08X (binascii_crc32 the_file 0)) None data)"
    by (simp add: make_file_info_def Let_def p crc32_rest_eq)
next
  assume "parse_header (take MIN_HEADER_READ_SIZE the_file) = Inr (Some r)"
  then show "make_file_info path the_file data
      = Inr (FileInfo_init path
               (format_08X (binascii_crc32 (drop MIN_HEADER_READ_SIZE the_file) 0)) (Some r) data)"
    by (simp add: make_file_info_def Let_def crc32_rest_eq)
qed

theorem checksum_scope_witness:
  "make_file_info ''raw.bin'' (replicate 16 0x31 @ [0x32, 0x33]) None
     = Inr (FileInfo_init ''raw.bin'' (format_08X (binascii_crc32 (replicate 16 0x31 @ [0x32, 0x33]) 0))
              None None)
   \<and> make_file_info ''rom.nes''
        ([0x4E, 0x45, 0x53, 0x1A, 2, 1, 1, 0] @ replicate 8 0
           @ [0x31, 0x32, 0x33, 0x34, 0x35, 0x36, 0x37, 0x38, 0x39]) None
     = Inr (FileInfo_init ''rom.nes'' ''CBF43926''
              (Some (ROMInfo_init 32768 0 8192 0 MIRROR_VERTICAL TV_NTSC False False False False))
              None)"
proof -
  let ?raw = "replicate 16 0x31 @ [0x32, 0x33] :: bytes"
  let ?rom = "[0x4E, 0x45, 0x53, 0x1A, 2, 1, 1, 0] @ replicate 8 0
           @ [0x31, 0x32, 0x33, 0x34, 0x35, 0x36, 0x37, 0x38, 0x39] :: bytes"
  have raw: "16 \<le> length ?raw \<and> \<not> startswith ?raw NES_MAGIC \<and> \<not> startswith ?raw UNIF_MAGIC"
    by (simp add: startswith_def NES_MAGIC_def UNIF_MAGIC_def)
  have rom: "parse_header (take MIN_HEADER_READ_SIZE ?rom)
      = Inr (Some (ROMInfo_init 32768 0 8192 0 MIRROR_VERTICAL TV_NTSC False False False False))"
    by (simp add: parse_header_def startswith_def NES_MAGIC_def UNIF_MAGIC_def byte_at_def)
  have payload: "drop MIN_HEADER_READ_SIZE ?rom = [0x31, 0x32, 0x33, 0x34, 0x35, 0x36, 0x37, 0x38, 0x39]"
    by simp
  from checksum_scope[of ?raw "''raw.bin''" None, THEN conjunct1, rule_format, OF raw]
  have 1: "make_file_info ''raw.bin'' ?raw None
     = Inr (FileInfo_init ''raw.bin'' (format_08X (binascii_crc32 ?raw 0)) None None)"
    by simp
  from checksum_scope[of ?rom "''rom.nes''" None, THEN conjunct2, rule_format, OF rom]
  have 2: "make_file_info ''rom.nes'' ?rom None
     = Inr (FileInfo_init ''rom.nes'' ''CBF43926''
              (Some (ROMInfo_init 32768 0 8192 0 MIRROR_VERTICAL TV_NTSC False False False False))
              None)"
    unfolding payload crc32_check_value .
  from 1 2 show ?thesis by (rule conjI)
qed


subsection \<open>The mirroring of a database entry\<close>












subsection \<open>Merging database entries\<close>

lemma diff_same: "diff r r = []"
  by (simp add: diff_def differs_def Let_def)

text \<open>
  Merging an entry into a database that holds an equal record for its checksum sets the
  TV timing of that record to "both" and logs nothing.
\<close>

lemma merge_entry_identical:
  "map_of database crc = Some r \<Longrightarrow>
     merge_entry (database, log) crc r
       = (AList.update crc (r\<lparr>tv_system := TV_BOTH\<rparr>) database, log)"
  by (simp add: merge_entry_def diff_same)

text \<open>
  The popped value is \<^verbatim>\<open>None\<close> or a tuple, never an integer, so neither comparison of
  the \<^verbatim>\<open>elif\<close> can hold: the duplicate warning is never logged.
\<close>

lemma merge_entry_never_logs_duplicate:
  "snd (merge_entry (database, log) crc r) \<noteq> log @ [DuplicateIdenticalEntries crc']"
  by (auto simp: merge_entry_def Let_def split: option.splits prod.splits)

text \<open>
  C3 (the code departs from the claim). Loading the same entry twice does not leave the
  record of the first load: the entry below is NTSC, and after the second copy the
  database holds it with the TV timing "both"; no duplicate warning is logged. The popped
  \<^verbatim>\<open>existing_tv_system\<close> is \<^verbatim>\<open>None\<close> here (or a pair of values when the timings
  differ), and the \<^verbatim>\<open>elif\<close> compares it with integers.
\<close>

theorem duplicate_entry_becomes_tv_both:
  "load_db decimal
     [(''start'', Element ''database'' [] []),
      (''end'', Element ''cartridge'' [(''system'', ''NES-NTSC''), (''crc'', ''abcd1234'')]
        [Element ''board'' [(''type'', ''NES-NROM-256''), (''mapper'', ''0'')]
          [Element ''prg'' [(''size'', ''32k'')] [],
           Element ''chr'' [(''size'', ''8k'')] [],
           Element ''pad'' [(''h'', ''0''), (''v'', ''1'')] []]])]
     = Inr ([(''ABCD1234'',
              ROMInfo_init 32768 0 8192 0 MIRROR_HORIZONTAL TV_NTSC False False False False)], [])
   \<and> load_db decimal
     [(''start'', Element ''database'' [] []),
      (''end'', Element ''cartridge'' [(''system'', ''NES-NTSC''), (''crc'', ''abcd1234'')]
        [Element ''board'' [(''type'', ''NES-NROM-256''), (''mapper'', ''0'')]
          [Element ''prg'' [(''size'', ''32k'')] [],
           Element ''chr'' [(''size'', ''8k'')] [],
           Element ''pad'' [(''h'', ''0''), (''v'', ''1'')] []]]),
      (''end'', Element ''cartridge'' [(''system'', ''NES-NTSC''), (''crc'', ''abcd1234'')]
        [Element ''board'' [(''type'', ''NES-NROM-256''), (''mapper'', ''0'')]
          [Element ''prg'' [(''size'', ''32k'')] [],
           Element ''chr'' [(''size'', ''8k'')] [],
           Element ''pad'' [(''h'', ''0''), (''v'', ''1'')] []]])]
     = Inr ([(''ABCD1234'',
              ROMInfo_init 32768 0 8192 0 MIRROR_HORIZONTAL TV_BOTH False False False False)], [])"
  by code_simp

theorem duplicate_entry_becomes_tv_both_witness:
  "\<exists>database. load_db decimal
     [(''start'', Element ''database'' [] []),
      (''end'', Element ''cartridge'' [(''system'', ''NES-NTSC''), (''crc'', ''abcd1234'')]
        [Element ''board'' [(''type'', ''NES-NROM-256''), (''mapper'', ''0'')]
          [Element ''prg'' [(''size'', ''32k'')] [],
           Element ''chr'' [(''size'', ''8k'')] [],
           Element ''pad'' [(''h'', ''0''), (''v'', ''1'')] []]]),
      (''end'', Element ''cartridge'' [(''system'', ''NES-NTSC''), (''crc'', ''abcd1234'')]
        [Element ''board'' [(''type'', ''NES-NROM-256''), (''mapper'', ''0'')]
          [Element ''prg'' [(''size'', ''32k'')] [],
           Element ''chr'' [(''size'', ''8k'')] [],
           Element ''pad'' [(''h'', ''0''), (''v'', ''1'')] []]])]
     = Inr (database, [])
   \<and> map_of database ''ABCD1234''
       = Some (ROMInfo_init 32768 0 8192 0 MIRROR_HORIZONTAL TV_BOTH False False False False)"
  using duplicate_entry_becomes_tv_both by simp

subsection \<open>Updating a zip archive\<close>

lemma dir_write_other: "p \<noteq> d \<Longrightarrow> dir_write files d member_path content p = files p"
  by (simp add: dir_write_def split: option.splits node.splits)

lemma dir_unlink_other: "p \<noteq> d \<Longrightarrow> dir_unlink files d member_path p = files p"
  by (simp add: dir_unlink_def split: option.splits node.splits)

lemma zip_write_other: "p \<noteq> archive \<Longrightarrow> zip_write files archive name' content p = files p"
  by (simp add: zip_write_def split: option.splits node.splits)

text \<open>The loop writes to the temporary archive and to the scratch directory only.\<close>

lemma rebuild_other_paths:
  assumes "rebuild temp_name temp_dir orig names by_file files = (ex, by_file', files')"
    and "p \<noteq> temp_name" "p \<noteq> temp_dir"
  shows "files' p = files p"
  using assms
proof (induction names arbitrary: by_file files)
  case Nil
  then show ?case by simp
next
  case (Cons name' names)
  show ?case
  proof (cases "zip_read orig name'")
    case None
    with Cons.prems(1) show ?thesis by simp
  next
    case (Some content)
    obtain requests by_file1 where pop: "pop_requests by_file name' = (requests, by_file1)"
      by (cases "pop_requests by_file name'")
    obtain ex1 content' where upd: "update_file content requests = (ex1, content')"
      by (cases "update_file content requests")
    let ?files2 = "dir_write (dir_write files temp_dir name' content) temp_dir name' content'"
    show ?thesis
    proof (cases ex1)
      case failed: (Some e)
      with Cons.prems(1) Some pop upd have "files' = ?files2"
        by (simp add: Let_def)
      with Cons.prems(3) show ?thesis by (simp add: dir_write_other)
    next
      case None
      with Cons.prems(1) Some pop upd
      have "rebuild temp_name temp_dir orig names by_file1
              (dir_unlink (zip_write ?files2 temp_name name' content') temp_dir name')
            = (ex, by_file', files')"
        by (simp add: Let_def)
      from Cons.IH[OF this Cons.prems(2,3)] Cons.prems(2,3) show ?thesis
        by (simp add: dir_unlink_other zip_write_other dir_write_other)
    qed
  qed
qed

text \<open>A failed update leaves the handler as it was and touches the two temporary names only.\<close>

lemma update_body_failure:
  assumes "update_body temp_name temp_dir self files requests = (Some e, self', files')"
  shows "self' = self"
    and "p \<noteq> temp_name \<Longrightarrow> p \<noteq> temp_dir \<Longrightarrow> files' p = files p"
proof -
  let ?files2 = "(files(temp_name \<mapsto> File []))(temp_dir \<mapsto> Dir [])"
  have "self' = self \<and> (p \<noteq> temp_name \<longrightarrow> p \<noteq> temp_dir \<longrightarrow> files' p = files p)"
  proof (cases "\<exists>orig. ?files2 (zip_path self) = Some (ZipFile orig)")
    case False
    with assms have "self' = self \<and> files' = ?files2"
      by (auto simp: update_body_def Let_def split: option.splits node.splits)
    then show ?thesis by simp
  next
    case True
    then obtain orig where orig: "?files2 (zip_path self) = Some (ZipFile orig)" by blast
    let ?files3 = "?files2(temp_name \<mapsto> ZipFile [])"
    obtain ex1 by_file' files4 where
      rb: "rebuild temp_name temp_dir orig (namelist orig) (group_requests requests) ?files3
             = (ex1, by_file', files4)"
      by (cases "rebuild temp_name temp_dir orig (namelist orig) (group_requests requests) ?files3")
    have other: "p \<noteq> temp_name \<Longrightarrow> p \<noteq> temp_dir \<Longrightarrow> files4 p = files p"
      using rebuild_other_paths[OF rb, of p] by simp
    from assms orig rb have "self' = self \<and> files' = files4"
      by (auto simp: update_body_def Let_def split: option.splits if_splits)
    with other show ?thesis by simp
  qed
  then show "self' = self"
    and "p \<noteq> temp_name \<Longrightarrow> p \<noteq> temp_dir \<Longrightarrow> files' p = files p"
    by simp_all
qed

text \<open>A request that cannot be encoded stops \<^verbatim>\<open>_update_file\<close>.\<close>

lemma update_file_bad_request:
  "\<exists>request \<in> set requests. isl (make_ines_header (req_rom_info request))
     \<Longrightarrow> fst (update_file the_file requests) \<noteq> None"
proof (induction requests arbitrary: the_file)
  case Nil
  then show ?case by simp
next
  case (Cons request requests)
  show ?case
  proof (cases "make_ines_header (req_rom_info request)")
    case (Inl ex)
    then show ?thesis by simp
  next
    case (Inr header_bytes)
    with Cons.prems have "\<exists>request \<in> set requests. isl (make_ines_header (req_rom_info request))"
      by auto
    with Cons.IH Inr show ?thesis by simp
  qed
qed

text \<open>Every request is filed under its member name.\<close>

lemma map_of_append_request:
  "map_of (append_request by_file request) k =
     (if k = handler_data (file_info request)
      then Some ((case map_of by_file k of None \<Rightarrow> [] | Some rs \<Rightarrow> rs) @ [request])
      else map_of by_file k)"
  by (simp add: append_request_def Let_def update_conv')

lemma foldl_append_request_finds:
  assumes "r \<in> set requests
         \<or> (\<exists>rs. map_of by_file (handler_data (file_info r)) = Some rs \<and> r \<in> set rs)"
  shows "\<exists>rs. map_of (foldl append_request by_file requests) (handler_data (file_info r)) = Some rs
           \<and> r \<in> set rs"
  using assms
proof (induction requests arbitrary: by_file)
  case Nil
  then show ?case by simp
next
  case (Cons request requests)
  have "r \<in> set requests
      \<or> (\<exists>rs. map_of (append_request by_file request) (handler_data (file_info r)) = Some rs
            \<and> r \<in> set rs)"
    using Cons.prems by (auto simp: map_of_append_request split: option.splits)
  from Cons.IH[OF this] show ?case by simp
qed

lemma group_requests_finds:
  "r \<in> set requests \<Longrightarrow>
     \<exists>rs. map_of (group_requests requests) (handler_data (file_info r)) = Some rs \<and> r \<in> set rs"
  unfolding group_requests_def by (rule foldl_append_request_finds) simp

text \<open>
  If the requests filed under a key hold one that cannot be encoded, or the key is not a
  member name, the loop ends with an exception or leaves requests behind.
\<close>

lemma rebuild_bad_request:
  assumes "map_of by_file k = Some rs"
    and "k \<notin> Some ` set names \<or> (\<exists>request \<in> set rs. isl (make_ines_header (req_rom_info request)))"
    and "rebuild temp_name temp_dir orig names by_file files = (ex, by_file', files')"
  shows "ex \<noteq> None \<or> by_file' \<noteq> []"
  using assms
proof (induction names arbitrary: by_file files)
  case Nil
  then show ?case by auto
next
  case (Cons name' names)
  show ?case
  proof (cases "zip_read orig name'")
    case None
    with Cons.prems(3) show ?thesis by auto
  next
    case (Some content)
    obtain requests by_file1 where pop: "pop_requests by_file name' = (requests, by_file1)"
      by (cases "pop_requests by_file name'")
    obtain ex1 content' where upd: "update_file content requests = (ex1, content')"
      by (cases "update_file content requests")
    show ?thesis
    proof (cases ex1)
      case failed: (Some e)
      with Cons.prems(3) Some pop upd show ?thesis by (auto simp: Let_def)
    next
      case None
      have neq: "k \<noteq> Some name'"
      proof
        assume eq: "k = Some name'"
        with pop Cons.prems(1) have "requests = rs" by (simp add: pop_requests_def)
        moreover from eq Cons.prems(2)
        have "\<exists>request \<in> set rs. isl (make_ines_header (req_rom_info request))" by simp
        ultimately have "fst (update_file content requests) \<noteq> None"
          by (simp add: update_file_bad_request)
        with upd None show False by simp
      qed
      from pop have "by_file1 = AList.delete (Some name') by_file"
        by (simp add: pop_requests_def)
      with neq Cons.prems(1) have m: "map_of by_file1 k = Some rs"
        by (simp add: delete_conv')
      from neq Cons.prems(2)
      have c: "k \<notin> Some ` set names
          \<or> (\<exists>request \<in> set rs. isl (make_ines_header (req_rom_info request)))"
        by auto
      from Cons.prems(3) Some pop upd None
      have "rebuild temp_name temp_dir orig names by_file1
              (dir_unlink (zip_write (dir_write (dir_write files temp_dir name' content)
                 temp_dir name' content') temp_name name' content') temp_dir name')
            = (ex, by_file', files')"
        by (simp add: Let_def)
      from Cons.IH[OF m c this] show ?thesis .
    qed
  qed
qed

lemma update_body_bad_request:
  assumes "request \<in> set requests"
    and "isl (make_ines_header (req_rom_info request))
         \<or> (\<forall>orig. ((files(temp_name \<mapsto> File []))(temp_dir \<mapsto> Dir [])) (zip_path self)
                      = Some (ZipFile orig)
               \<longrightarrow> handler_data (file_info request) \<notin> Some ` set (namelist orig))"
  shows "fst (update_body temp_name temp_dir self files requests) \<noteq> None"
proof -
  let ?files2 = "(files(temp_name \<mapsto> File []))(temp_dir \<mapsto> Dir [])"
  show ?thesis
  proof (cases "\<exists>orig. ?files2 (zip_path self) = Some (ZipFile orig)")
    case False
    then show ?thesis
      by (auto simp: update_body_def Let_def split: option.splits node.splits)
  next
    case True
    then obtain orig where orig: "?files2 (zip_path self) = Some (ZipFile orig)" by blast
    let ?files3 = "?files2(temp_name \<mapsto> ZipFile [])"
    obtain ex1 by_file' files4 where
      rb: "rebuild temp_name temp_dir orig (namelist orig) (group_requests requests) ?files3
             = (ex1, by_file', files4)"
      by (cases "rebuild temp_name temp_dir orig (namelist orig) (group_requests requests) ?files3")
    from group_requests_finds[OF assms(1)] obtain rs where
      rs: "map_of (group_requests requests) (handler_data (file_info request)) = Some rs"
      and mem: "request \<in> set rs"
      by blast
    from assms(2) orig mem
    have "handler_data (file_info request) \<notin> Some ` set (namelist orig)
        \<or> (\<exists>request' \<in> set rs. isl (make_ines_header (req_rom_info request')))"
      by auto
    from rebuild_bad_request[OF rs this rb] have "ex1 \<noteq> None \<or> by_file' \<noteq> []" .
    with orig rb show ?thesis
      by (auto simp: update_body_def Let_def split: option.splits)
  qed
qed

text \<open>
  C6. Let \<open>temp_name\<close> and \<open>temp_dir\<close> be fresh names, as \<^verbatim>\<open>tempfile\<close> gives them. If
  \<^verbatim>\<open>ZipIOHandler.update\<close> raises, the whole file system is what it was before the call:
  the archive with its member list and the bytes of every member, and no temporary
  archive or scratch directory is left; the handler, with its update counter, is
  unchanged. The call does raise when a request carries a record that cannot be encoded,
  and when a request names a member that the archive does not have.
\<close>

theorem zip_update_atomic:
  assumes "files temp_name = None" "files temp_dir = None"
    and "ZipIOHandler_update temp_name temp_dir self files requests = (ex, self', files')"
  shows "(ex \<noteq> None \<longrightarrow> files' = files \<and> self' = self)
       \<and> ((\<exists>request \<in> set requests. isl (make_ines_header (req_rom_info request)))
            \<longrightarrow> ex \<noteq> None)
       \<and> ((\<exists>request \<in> set requests. \<exists>orig. files (zip_path self) = Some (ZipFile orig)
              \<and> handler_data (file_info request) \<notin> Some ` set (namelist orig))
            \<longrightarrow> ex \<noteq> None)"
proof -
  obtain ex0 self0 files0 where
    body: "update_body temp_name temp_dir self files requests = (ex0, self0, files0)"
    by (cases "update_body temp_name temp_dir self files requests")
  with assms(3) have res: "ex = ex0" "self' = self0"
    "files' = update_finally temp_name temp_dir files0"
    by (simp_all add: ZipIOHandler_update_def)
  have atomic: "files' = files \<and> self' = self" if "ex \<noteq> None"
  proof -
    from that res(1) obtain e where "ex0 = Some e" by auto
    with body have b: "update_body temp_name temp_dir self files requests = (Some e, self0, files0)"
      by simp
    have "files' p = files p" for p
      using update_body_failure(2)[OF b, of p] assms(1,2)
      by (simp add: res(3) update_finally_def)
    then have "files' = files" by (rule ext)
    with update_body_failure(1)[OF b] res(2) show ?thesis by simp
  qed
  have enc: "ex \<noteq> None"
    if "\<exists>request \<in> set requests. isl (make_ines_header (req_rom_info request))"
  proof -
    from that obtain request where "request \<in> set requests"
      "isl (make_ines_header (req_rom_info request))" by blast
    from update_body_bad_request[OF this(1), where temp_name = temp_name and files = files
        and temp_dir = temp_dir and self = self] this(2) body res(1)
    show ?thesis by simp
  qed
  have unknown: "ex \<noteq> None"
    if "\<exists>request \<in> set requests. \<exists>orig. files (zip_path self) = Some (ZipFile orig)
              \<and> handler_data (file_info request) \<notin> Some ` set (namelist orig)"
  proof -
    from that obtain request orig where r: "request \<in> set requests"
      and o: "files (zip_path self) = Some (ZipFile orig)"
      and n: "handler_data (file_info request) \<notin> Some ` set (namelist orig)"
      by blast
    from o assms(1,2) have "zip_path self \<noteq> temp_name" "zip_path self \<noteq> temp_dir" by auto
    with o n have "\<forall>orig'. ((files(temp_name \<mapsto> File []))(temp_dir \<mapsto> Dir [])) (zip_path self)
                      = Some (ZipFile orig')
               \<longrightarrow> handler_data (file_info request) \<notin> Some ` set (namelist orig')"
      by simp
    with update_body_bad_request[OF r, where temp_name = temp_name and files = files
        and temp_dir = temp_dir and self = self] body res(1)
    show ?thesis by simp
  qed
  from atomic enc unknown show ?thesis by blast
qed

theorem zip_update_atomic_witness:
  "(\<exists>e. ZipIOHandler_update ''tmpf'' ''tmpd'' \<lparr>zip_path = ''a.zip'', updates = 0\<rparr>
          [''a.zip'' \<mapsto> ZipFile [(''x.nes'', [1, 2, 3]), (''y.nes'', [4, 5])]]
          [\<lparr> file_info = FileInfo_init ''a.zip/x.nes'' ''55BC801D'' None (Some ''x.nes''),
             req_type = REQ_HEADER_INSERT,
             req_rom_info = ROMInfo_init 1 0 8192 0 0 0 False False False False \<rparr>]
        = (Some e, \<lparr>zip_path = ''a.zip'', updates = 0\<rparr>,
           [''a.zip'' \<mapsto> ZipFile [(''x.nes'', [1, 2, 3]), (''y.nes'', [4, 5])]]))
   \<and> (\<exists>e. ZipIOHandler_update ''tmpf'' ''tmpd'' \<lparr>zip_path = ''a.zip'', updates = 0\<rparr>
          [''a.zip'' \<mapsto> ZipFile [(''x.nes'', [1, 2, 3]), (''y.nes'', [4, 5])]]
          [\<lparr> file_info = FileInfo_init ''a.zip/z.nes'' ''55BC801D'' None (Some ''z.nes''),
             req_type = REQ_HEADER_INSERT,
             req_rom_info = ROMInfo_init 32768 0 8192 0 0 0 False False False False \<rparr>]
        = (Some e, \<lparr>zip_path = ''a.zip'', updates = 0\<rparr>,
           [''a.zip'' \<mapsto> ZipFile [(''x.nes'', [1, 2, 3]), (''y.nes'', [4, 5])]]))"
proof -
  let ?self = "\<lparr>zip_path = ''a.zip'', updates = 0\<rparr>"
  let ?files = "[''a.zip'' \<mapsto> ZipFile [(''x.nes'', [1, 2, 3 :: byte]), (''y.nes'', [4, 5])]]"
  let ?bad = "\<lparr> file_info = FileInfo_init ''a.zip/x.nes'' ''55BC801D'' None (Some ''x.nes''),
             req_type = REQ_HEADER_INSERT,
             req_rom_info = ROMInfo_init 1 0 8192 0 0 0 False False False False \<rparr>"
  let ?unknown = "\<lparr> file_info = FileInfo_init ''a.zip/z.nes'' ''55BC801D'' None (Some ''z.nes''),
             req_type = REQ_HEADER_INSERT,
             req_rom_info = ROMInfo_init 32768 0 8192 0 0 0 False False False False \<rparr>"
  have fresh: "?files ''tmpf'' = None" "?files ''tmpd'' = None" by simp_all
  have first: "\<exists>e. ZipIOHandler_update ''tmpf'' ''tmpd'' ?self ?files [?bad] = (Some e, ?self, ?files)"
  proof -
    obtain ex self' files' where
      run: "ZipIOHandler_update ''tmpf'' ''tmpd'' ?self ?files [?bad] = (ex, self', files')"
      by (cases "ZipIOHandler_update ''tmpf'' ''tmpd'' ?self ?files [?bad]")
    have "\<exists>request \<in> set [?bad]. isl (make_ines_header (req_rom_info request))"
      by (simp add: make_ines_header_def ROMInfo_init_def)
    with zip_update_atomic[OF fresh run] have "ex \<noteq> None" "files' = ?files" "self' = ?self"
      by blast+
    with run show ?thesis by auto
  qed
  have second: "\<exists>e. ZipIOHandler_update ''tmpf'' ''tmpd'' ?self ?files [?unknown] = (Some e, ?self, ?files)"
  proof -
    obtain ex self' files' where
      run: "ZipIOHandler_update ''tmpf'' ''tmpd'' ?self ?files [?unknown] = (ex, self', files')"
      by (cases "ZipIOHandler_update ''tmpf'' ''tmpd'' ?self ?files [?unknown]")
    have "\<exists>request \<in> set [?unknown]. \<exists>orig. ?files (zip_path ?self) = Some (ZipFile orig)
        \<and> handler_data (file_info request) \<notin> Some ` set (namelist orig)"
      by (simp add: namelist_def FileInfo_init_def)
    with zip_update_atomic[OF fresh run] have "ex \<noteq> None" "files' = ?files" "self' = ?self"
      by blast+
    with run show ?thesis by auto
  qed
  from first second show ?thesis by (rule conjI)
qed

end
